theory Spec2Isabelle
  imports Main "HOL-Library.Sublist" "HOL-Library.Multiset"
begin

section \<open>Go strings\<close>

text \<open>
  A Go string is a sequence of bytes; it is modelled as a \<open>string\<close>. The functions of
  package \<open>strings\<close> that compare bytes are written out. \<open>strings.ToLower\<close> and
  \<open>strings.ToUpper\<close> decode the string as UTF-8 and map every Unicode letter; they are
  not written out but are parameters of the model (fields of \<open>Lib\<close> below).
\<close>

text \<open>\<open>strings.HasPrefix(s, p)\<close> is \<open>len(s) >= len(p) && s[:len(p)] == p\<close>.\<close>

definition HasPrefix :: "string \<Rightarrow> string \<Rightarrow> bool" where
  "HasPrefix s p = (length p \<le> length s \<and> take (length p) s = p)"

text \<open>\<open>strings.HasSuffix(s, p)\<close> is \<open>len(s) >= len(p) && s[len(s)-len(p):] == p\<close>.\<close>

definition HasSuffix :: "string \<Rightarrow> string \<Rightarrow> bool" where
  "HasSuffix s p = (length p \<le> length s \<and> drop (length s - length p) s = p)"

text \<open>\<open>strings.Contains(s, sub)\<close>: \<open>sub\<close> occurs in \<open>s\<close> at some offset.\<close>

fun Contains :: "string \<Rightarrow> string \<Rightarrow> bool" where
  "Contains [] sub = (sub = [])"
| "Contains (c # s) sub = (HasPrefix (c # s) sub \<or> Contains s sub)"

subsection \<open>ASCII strings\<close>

text \<open>
  On a string whose bytes are all below \<open>utf8.RuneSelf\<close> (128), \<open>strings.ToLower\<close>
  adds \<open>'a' - 'A'\<close> to the bytes \<open>'A'..'Z'\<close> and leaves the others, and
  \<open>strings.ToUpper\<close> subtracts it from the bytes \<open>'a'..'z'\<close>. \<open>ascii_lower\<close>
  and \<open>ascii_upper\<close> do this to every byte of a string; they say what the library
  functions do on ASCII strings, and nothing about other strings.
\<close>

definition is_ascii :: "string \<Rightarrow> bool" where
  "is_ascii s = list_all (\<lambda>c. (of_char c :: nat) < 128) s"

definition ascii_lower_byte :: "char \<Rightarrow> char" where
  "ascii_lower_byte c =
     (let n = (of_char c :: nat) in if 65 \<le> n \<and> n \<le> 90 then char_of (n + 32) else c)"

definition ascii_upper_byte :: "char \<Rightarrow> char" where
  "ascii_upper_byte c =
     (let n = (of_char c :: nat) in if 97 \<le> n \<and> n \<le> 122 then char_of (n - 32) else c)"

definition ascii_lower :: "string \<Rightarrow> string" where
  "ascii_lower s = map ascii_lower_byte s"

definition ascii_upper :: "string \<Rightarrow> string" where
  "ascii_upper s = map ascii_upper_byte s"

section \<open>Data model\<close>

type_synonym bytes = string

text \<open>\<open>ScanResult\<close> of \<open>scanner.go\<close>; a result of the legacy scan leaves
  \<open>HandshakeType\<close> empty.\<close>

record ScanResult =
  IP :: string
  Port :: int
  Hostname :: string
  HandshakeType :: string
  Certificates :: "string list"
  Timestamp :: int

record Payload =
  PrimaryIP :: string
  MachineID :: string
  ScanResults :: "ScanResult list"

text \<open>\<open>config.ExcludeCertRule\<close>, and the fields of \<open>shared.Config\<close> that the scanner reads.\<close>

record ExcludeCertRule =
  Issuer :: string
  CN :: string

record Config =
  WebhookURL :: string
  Token :: string
  WebhookTimeoutMs :: int
  DialTimeoutMs :: int
  ConcurrencyLimit :: int
  ExcludeCerts :: "ExcludeCertRule list"

text \<open>Of a parsed \<open>x509.Certificate\<close> the scanner reads \<open>cert.Issuer.String()\<close> and
  \<open>cert.Subject.CommonName\<close>.\<close>

record Certificate =
  IssuerString :: string
  SubjectCommonName :: string

text \<open>
  The functions of the Go standard library that the scanner calls and that are not written
  out are parameters of the model: \<open>strings.ToLower\<close> and \<open>strings.ToUpper\<close>,
  \<open>x509.ParseCertificate\<close> (\<open>None\<close> is its error),
  \<open>base64.StdEncoding.EncodeToString\<close> and \<open>base64.StdEncoding.DecodeString\<close>
  (\<open>None\<close> is its error).
\<close>

record Lib =
  ToLower :: "string \<Rightarrow> string"
  ToUpper :: "string \<Rightarrow> string"
  ParseCertificate :: "bytes \<Rightarrow> Certificate option"
  EncodeToString :: "bytes \<Rightarrow> string"
  DecodeString :: "string \<Rightarrow> bytes option"

section \<open>Wildcard matcher\<close>

text \<open>
  \<open>matchWildcard\<close> of \<open>scanner.go\<close>. The slice \<open>pattern[1:len(pattern)-1]\<close> is
  only reached with a pattern of length at least two.
\<close>

definition matchWildcard :: "Lib \<Rightarrow> string \<Rightarrow> string \<Rightarrow> bool" where
  "matchWildcard lib pattern s =
     (if pattern = [] then False
      else
        let pattern = ToLower lib pattern; s = ToLower lib s in
        if pattern = ''*'' then True
        else if HasPrefix pattern ''*'' \<and> HasSuffix pattern ''*'' then
          Contains s (drop 1 (take (length pattern - 1) pattern))
        else if HasPrefix pattern ''*'' then HasSuffix s (drop 1 pattern)
        else if HasSuffix pattern ''*'' then HasPrefix s (take (length pattern - 1) pattern)
        else s = pattern)"

section \<open>Certificate exclusion filter\<close>

fun isCertExcluded :: "Lib \<Rightarrow> Certificate \<Rightarrow> ExcludeCertRule list \<Rightarrow> bool" where
  "isCertExcluded lib cert [] = False"
| "isCertExcluded lib cert (rule # rules) =
     (if (Issuer rule \<noteq> [] \<and> matchWildcard lib (Issuer rule) (IssuerString cert)) \<or>
         (CN rule \<noteq> [] \<and> matchWildcard lib (CN rule) (SubjectCommonName cert))
      then True
      else isCertExcluded lib cert rules)"

fun filterCerts :: "Lib \<Rightarrow> bytes list \<Rightarrow> ExcludeCertRule list \<Rightarrow> string list" where
  "filterCerts lib [] rules = []"
| "filterCerts lib (der # derCerts) rules =
     (case ParseCertificate lib der of
        None \<Rightarrow> filterCerts lib derCerts rules
      | Some cert \<Rightarrow>
          if isCertExcluded lib cert rules then filterCerts lib derCerts rules
          else EncodeToString lib der # filterCerts lib derCerts rules)"

fun decodeBase64Certs :: "Lib \<Rightarrow> string list \<Rightarrow> bytes list" where
  "decodeBase64Certs lib [] = []"
| "decodeBase64Certs lib (b64 # b64certs) =
     (case DecodeString lib b64 of
        Some der \<Rightarrow> der # decodeBase64Certs lib b64certs
      | None \<Rightarrow> decodeBase64Certs lib b64certs)"

text \<open>The byte strings that the filter keeps: those that parse and that no rule excludes.\<close>

definition survives :: "Lib \<Rightarrow> ExcludeCertRule list \<Rightarrow> bytes \<Rightarrow> bool" where
  "survives lib rules der =
     (case ParseCertificate lib der of None \<Rightarrow> False | Some cert \<Rightarrow> \<not> isCertExcluded lib cert rules)"

section \<open>A concrete library\<close>

text \<open>
  The standard base64 encoding with padding (RFC 4648), which is what
  \<open>base64.StdEncoding\<close> computes: three bytes become four characters of the alphabet, a
  last group of one or two bytes is padded with \<open>=\<close>. \<open>DecodeString\<close> skips carriage
  returns and line feeds, then reads groups of four characters; padding is accepted in
  the last group only.
\<close>

definition base64_alphabet :: string where
  "base64_alphabet = ''ABCDEFGHIJKLMNOPQRSTUVWXYZabcdefghijklmnopqrstuvwxyz0123456789+/''"

definition enc_char :: "nat \<Rightarrow> char" where
  "enc_char n = base64_alphabet ! n"

fun index_of :: "char \<Rightarrow> string \<Rightarrow> nat option" where
  "index_of c [] = None"
| "index_of c (d # ds) =
     (if c = d then Some 0 else (case index_of c ds of None \<Rightarrow> None | Some i \<Rightarrow> Some (Suc i)))"

definition dec_char :: "char \<Rightarrow> nat option" where
  "dec_char c = index_of c base64_alphabet"

fun base64_encode :: "bytes \<Rightarrow> string" where
  "base64_encode [] = []"
| "base64_encode [a] =
     [enc_char (of_char a div 4), enc_char ((of_char a mod 4) * 16), CHR ''='', CHR ''='']"
| "base64_encode [a, b] =
     [enc_char (of_char a div 4), enc_char ((of_char a mod 4) * 16 + of_char b div 16),
      enc_char ((of_char b mod 16) * 4), CHR ''='']"
| "base64_encode (a # b # c # rest) =
     [enc_char (of_char a div 4), enc_char ((of_char a mod 4) * 16 + of_char b div 16),
      enc_char ((of_char b mod 16) * 4 + of_char c div 64), enc_char (of_char c mod 64)]
     @ base64_encode rest"

definition decode_quad :: "char \<Rightarrow> char \<Rightarrow> char \<Rightarrow> char \<Rightarrow> bytes option" where
  "decode_quad w x y z =
     (case (dec_char w, dec_char x, dec_char y, dec_char z) of
        (Some a, Some b, Some c, Some d) \<Rightarrow>
          Some [char_of (a * 4 + b div 16), char_of ((b mod 16) * 16 + c div 4),
                char_of ((c mod 4) * 64 + d)]
      | _ \<Rightarrow> None)"

definition decode_last :: "char \<Rightarrow> char \<Rightarrow> char \<Rightarrow> char \<Rightarrow> bytes option" where
  "decode_last w x y z =
     (if y = CHR ''='' \<and> z = CHR ''='' then
        (case (dec_char w, dec_char x) of
           (Some a, Some b) \<Rightarrow> Some [char_of (a * 4 + b div 16)]
         | _ \<Rightarrow> None)
      else if z = CHR ''='' then
        (case (dec_char w, dec_char x, dec_char y) of
           (Some a, Some b, Some c) \<Rightarrow>
             Some [char_of (a * 4 + b div 16), char_of ((b mod 16) * 16 + c div 4)]
         | _ \<Rightarrow> None)
      else decode_quad w x y z)"

fun base64_decode :: "string \<Rightarrow> bytes option" where
  "base64_decode (w # x # y # z # rest) =
     (if rest = [] then decode_last w x y z
      else (case decode_quad w x y z of
              None \<Rightarrow> None
            | Some bs \<Rightarrow>
                (case base64_decode rest of None \<Rightarrow> None | Some r \<Rightarrow> Some (bs @ r))))"
| "base64_decode [] = Some []"
| "base64_decode cs = None"

definition base64_DecodeString :: "string \<Rightarrow> bytes option" where
  "base64_DecodeString s = base64_decode (filter (\<lambda>c. c \<noteq> CHR 0x0D \<and> c \<noteq> CHR 0x0A) s)"

text \<open>
  A stand-in for the X.509 parser, for evaluation: a certificate is the text
  \<open>issuer|cn\<close>, and anything without a bar does not parse. The library on which the
  definitions are evaluated folds case as the Go library does on ASCII strings; it is
  applied to ASCII strings only.
\<close>

fun split_bar :: "string \<Rightarrow> string \<Rightarrow> (string \<times> string) option" where
  "split_bar acc [] = None"
| "split_bar acc (c # cs) = (if c = CHR ''|'' then Some (acc, cs) else split_bar (acc @ [c]) cs)"

definition sample_parse :: "bytes \<Rightarrow> Certificate option" where
  "sample_parse der =
     (case split_bar [] der of
        None \<Rightarrow> None
      | Some (i, c) \<Rightarrow> Some \<lparr>IssuerString = i, SubjectCommonName = c\<rparr>)"

definition sample_lib :: Lib where
  "sample_lib = \<lparr>ToLower = ascii_lower, ToUpper = ascii_upper,
      ParseCertificate = sample_parse, EncodeToString = base64_encode,
      DecodeString = base64_DecodeString\<rparr>"


section \<open>SMTP STARTTLS upgrader\<close>

text \<open>
  The peer of one STARTTLS attempt: whether the TCP dial succeeds, the lines that
  successive calls of \<open>reader.ReadString\<close> return (a call after the last line fails),
  and the outcome of the TLS handshake on the upgraded socket (\<open>None\<close> is its failure).
\<close>

record smtp_peer =
  Accepts :: bool
  Replies :: "string list"
  Upgrade :: "bytes list option"

text \<open>The errors of \<open>scanSMTPStartTLS\<close>, one for each \<open>fmt.Errorf\<close> of the source:
  \<open>TcpDialFailed\<close> is the spec's DialError; \<open>SmtpGreetingFailed\<close>, \<open>EhloReadFailed\<close>
  and \<open>StartTLSFailed\<close> are its ProtocolError; \<open>StartTLSNotSupported\<close> is its
  UnsupportedError; \<open>TLSHandshakeFailed\<close> is its HandshakeError and \<open>NoCertReturned\<close>
  its NoCertificatesError.\<close>

datatype smtp_error =
    TcpDialFailed
  | SmtpGreetingFailed
  | EhloReadFailed
  | StartTLSNotSupported
  | StartTLSFailed
  | TLSHandshakeFailed
  | NoCertReturned

definition CRLF :: string where
  "CRLF = [CHR 0x0D, CHR 0x0A]"

definition EHLO_command :: string where
  "EHLO_command = ''EHLO certscan'' @ CRLF"

definition STARTTLS_command :: string where
  "STARTTLS_command = ''STARTTLS'' @ CRLF"

text \<open>The loop that reads the reply to EHLO: the lines still to come and the lines
  collected so far; it gives the collected lines and the lines left, or \<open>None\<close> when a
  read fails.\<close>

fun read_ehlo :: "string list \<Rightarrow> string list \<Rightarrow> (string list \<times> string list) option" where
  "read_ehlo [] lines = None"
| "read_ehlo (line # rest) lines =
     (if \<not> HasPrefix line ''250-'' then Some (lines @ [line], rest)
      else read_ehlo rest (lines @ [line]))"

fun supportsStartTLS :: "Lib \<Rightarrow> string list \<Rightarrow> bool" where
  "supportsStartTLS lib [] = False"
| "supportsStartTLS lib (l # lines) =
     (if Contains (ToUpper lib l) ''STARTTLS'' then True else supportsStartTLS lib lines)"

text \<open>\<open>scanSMTPStartTLS\<close>: the result, and what was written to the connection.\<close>

definition scanSMTPStartTLS ::
  "Lib \<Rightarrow> int \<Rightarrow> smtp_peer \<Rightarrow> string \<Rightarrow> string \<Rightarrow> int \<Rightarrow>
   (smtp_error + ScanResult) \<times> string list" where
  "scanSMTPStartTLS lib now peer ip hostname port =
     (if \<not> Accepts peer then (Inl TcpDialFailed, [])
      else case Replies peer of
        [] \<Rightarrow> (Inl SmtpGreetingFailed, [])
      | greeting # after_greeting \<Rightarrow>
          (case read_ehlo after_greeting [] of
             None \<Rightarrow> (Inl EhloReadFailed, [EHLO_command])
           | Some (lines, after_ehlo) \<Rightarrow>
               if \<not> supportsStartTLS lib lines then (Inl StartTLSNotSupported, [EHLO_command])
               else
                 (case after_ehlo of
                    [] \<Rightarrow> (Inl StartTLSFailed, [EHLO_command, STARTTLS_command])
                  | line # after_starttls \<Rightarrow>
                      if \<not> HasPrefix line ''220'' then
                        (Inl StartTLSFailed, [EHLO_command, STARTTLS_command])
                      else
                        (case Upgrade peer of
                           None \<Rightarrow> (Inl TLSHandshakeFailed, [EHLO_command, STARTTLS_command])
                         | Some chain \<Rightarrow>
                             if length chain = 0 then
                               (Inl NoCertReturned, [EHLO_command, STARTTLS_command])
                             else
                               (Inr \<lparr>IP = ip, Port = port, Hostname = hostname,
                                      HandshakeType = [],
                                      Certificates = map (EncodeToString lib) chain,
                                      Timestamp = now\<rparr>,
                                [EHLO_command, STARTTLS_command])))))"


section \<open>Legacy certificate collection\<close>

text \<open>
  The loop over \<open>state.PeerCertificates\<close> of the first \<open>ScanAndSendWithProtocol\<close>:
  \<open>certs\<close> is the list built so far and \<open>certMap\<close> the set of its entries.
\<close>

fun collect_unique ::
  "Lib \<Rightarrow> bytes list \<Rightarrow> string list \<times> string set \<Rightarrow> string list \<times> string set" where
  "collect_unique lib [] (certs, certMap) = (certs, certMap)"
| "collect_unique lib (cert # chain) (certs, certMap) =
     (let enc = EncodeToString lib cert in
      if enc \<notin> certMap then collect_unique lib chain (certs @ [enc], insert enc certMap)
      else collect_unique lib chain (certs, certMap))"

text \<open>The certificates that this function gathers for a port outside the STARTTLS branch:
  the ECDSA connection first, then the RSA connection, each skipped when its dial fails
  (\<open>None\<close>); a port with no certificate gives no result.\<close>

definition legacy_certs :: "Lib \<Rightarrow> bytes list option \<Rightarrow> bytes list option \<Rightarrow> string list" where
  "legacy_certs lib ecdsa rsa =
     (let s0 = ([], {});
          s1 = (case ecdsa of Some chain \<Rightarrow> collect_unique lib chain s0 | None \<Rightarrow> s0);
          s2 = (case rsa of Some chain \<Rightarrow> collect_unique lib chain s1 | None \<Rightarrow> s1)
      in fst s2)"

definition legacy_result ::
  "Lib \<Rightarrow> int \<Rightarrow> bytes list option \<Rightarrow> bytes list option \<Rightarrow> string \<Rightarrow> string \<Rightarrow> int \<Rightarrow>
   ScanResult option" where
  "legacy_result lib now ecdsa rsa ip hostname port =
     (let certs = legacy_certs lib ecdsa rsa in
      if length certs = 0 then None
      else Some \<lparr>IP = ip, Port = port, Hostname = hostname, HandshakeType = [],
                  Certificates = certs, Timestamp = now\<rparr>)"

text \<open>The entries of a list in the order of their first occurrence.\<close>

fun first_occurrences :: "'a list \<Rightarrow> 'a list" where
  "first_occurrences [] = []"
| "first_occurrences (x # xs) = x # first_occurrences (removeAll x xs)"


section \<open>Effects\<close>

text \<open>
  What a function does beyond its return value is a list of events, in program order.
  A log entry carries the format string of the call. \<open>Connect\<close> is one TCP dial by the
  handshake prober: address, port and cipher family. \<open>Post\<close> is one HTTP request to the
  webhook: URL, timeout in milliseconds, headers and payload. \<open>Println\<close> is a line on
  standard output.
\<close>

datatype event =
    DebugLog string
  | ErrorLog string
  | Connect string int string
  | Post string int "(string \<times> string) list" Payload
  | Println string

text \<open>A call either returns a value or ends the process with \<open>os.Exit\<close>.\<close>

datatype 'a control = Return 'a | OsExit int

text \<open>The events that touch the network.\<close>

fun network_io :: "event \<Rightarrow> bool" where
  "network_io (Connect ip port family) = True"
| "network_io (Post url timeout headers payload) = True"
| "network_io e = False"

section \<open>Result sink\<close>

text \<open>
  What can happen to one webhook request: \<open>json.Marshal\<close> fails, \<open>http.NewRequest\<close>
  fails, \<open>client.Do\<close> fails, or a response with a status code arrives.
\<close>

datatype http_outcome = MarshalFails | NewRequestFails | DoFails | Response int

text \<open>The surroundings of the sink: \<open>shared.GetPrimaryIP\<close>, \<open>shared.GetMachineID\<close>
  and the answer of the webhook to a payload.\<close>

record Sink =
  GetPrimaryIP :: string
  GetMachineID :: string
  Webhook :: "Payload \<Rightarrow> http_outcome"

definition StatusForbidden :: int where
  "StatusForbidden = 403"

definition webhookTimeout :: "Config \<Rightarrow> int" where
  "webhookTimeout cfg = (if WebhookTimeoutMs cfg \<le> 0 then 5000 else WebhookTimeoutMs cfg)"

definition request_headers :: "Config \<Rightarrow> Sink \<Rightarrow> (string \<times> string) list" where
  "request_headers cfg sink =
     (''Content-Type'', ''application/json'') #
     (if Token cfg \<noteq> [] then
        [(''Authorization'', ''Bearer '' @ Token cfg),
         (''x-ultrapki-machine-id'', GetMachineID sink)]
      else [])"

definition NL :: string where
  "NL = [CHR 0x0A]"

definition guidance :: "event list" where
  "guidance =
     [Println (NL @ NL @ ''No token provided.''),
      Println (''You can register your system in seconds with the following command:'' @ NL),
      Println ''  curl -sSf https://cd.ultrapki.com/sh | sh'',
      Println (NL @ ''This will generate a token for your system and show you how to add it to your config.'' @ NL)]"

definition make_payload :: "Sink \<Rightarrow> ScanResult list \<Rightarrow> Payload" where
  "make_payload sink results =
     \<lparr>PrimaryIP = GetPrimaryIP sink, MachineID = GetMachineID sink, ScanResults = results\<rparr>"

text \<open>\<open>sendToWebhook\<close>. The test \<open>shared.Config == nil\<close> of the source is false
  where it stands, the configuration having been read at the head of the function.\<close>

definition sendToWebhook ::
  "Config \<Rightarrow> Sink \<Rightarrow> ScanResult list \<Rightarrow> string \<Rightarrow> event list \<times> unit control" where
  "sendToWebhook cfg sink results url =
     (let payload = make_payload sink results
      in case Webhook sink payload of
           MarshalFails \<Rightarrow> ([ErrorLog ''Failed to marshal results: %v''], Return ())
         | NewRequestFails \<Rightarrow> ([ErrorLog ''Failed to create request: %v''], Return ())
         | DoFails \<Rightarrow>
             ([Post url (webhookTimeout cfg) (request_headers cfg sink) payload,
               ErrorLog ''Webhook request failed: %v''], Return ())
         | Response StatusCode \<Rightarrow>
             (let sent = [Post url (webhookTimeout cfg) (request_headers cfg sink) payload] in
              if StatusCode < 200 \<or> StatusCode \<ge> 300 then
                (if StatusCode = StatusForbidden then
                   (if Token cfg = [] then
                      (sent @ [ErrorLog ''Webhook returned status: %d'',
                               ErrorLog ''Invalid or missing token for webhook %s''] @ guidance,
                       OsExit 1)
                    else
                      (sent @ [ErrorLog ''Webhook returned status: %d'',
                               ErrorLog ''Invalid or missing token for webhook %s''],
                       Return ()))
                 else (sent @ [ErrorLog ''Webhook returned status: %d''], Return ()))
              else (sent, Return ())))"

section \<open>Handshake prober\<close>

text \<open>
  What can happen to one probe: the dial fails, \<open>ApplyPreset\<close> fails, the handshake
  fails, or the handshake succeeds and the peer's chain is read.
\<close>

datatype tls_outcome = DialFails | PresetFails | HandshakeFails | PeerCertificates "bytes list"

datatype probe_error = DialError | PresetError | HandshakeError | NoCertsFound

text \<open>The surroundings of a probe: the clock and the answer of the peer at an address and
  port to the ClientHello of a cipher family.\<close>

record Net =
  Now :: int
  Peer :: "string \<Rightarrow> int \<Rightarrow> string \<Rightarrow> tls_outcome"

text \<open>\<open>tlsHandshakeAndCollectWithTimeout\<close>. The cipher suites, the protocol string and
  the dial timeout reach the peer only and are left out.\<close>

definition tlsHandshakeAndCollectWithTimeout ::
  "Lib \<Rightarrow> Net \<Rightarrow> string \<Rightarrow> string \<Rightarrow> int \<Rightarrow> string \<Rightarrow> probe_error + ScanResult" where
  "tlsHandshakeAndCollectWithTimeout lib net ip hostname port handshakeType =
     (case Peer net ip port handshakeType of
        DialFails \<Rightarrow> Inl DialError
      | PresetFails \<Rightarrow> Inl PresetError
      | HandshakeFails \<Rightarrow> Inl HandshakeError
      | PeerCertificates chain \<Rightarrow>
          (let certs = map (EncodeToString lib) chain in
           if length certs = 0 then Inl NoCertsFound
           else Inr \<lparr>IP = ip, Port = port, Hostname = hostname,
                     HandshakeType = handshakeType, Certificates = certs,
                     Timestamp = Now net\<rparr>))"


section \<open>Web TLS handler\<close>

text \<open>One family's probe in \<open>defaultTLSHandler\<close>: the attempt, and on failure the
  debug line; a successful result is appended to \<open>results\<close>.\<close>

definition probe_family ::
  "Lib \<Rightarrow> Net \<Rightarrow> string \<Rightarrow> string \<Rightarrow> int \<Rightarrow> string \<Rightarrow> string \<Rightarrow>
   ScanResult list \<times> event list" where
  "probe_family lib net ip hostname port handshakeType failure =
     (case tlsHandshakeAndCollectWithTimeout lib net ip hostname port handshakeType of
        Inr result \<Rightarrow> ([result], [Connect ip port handshakeType])
      | Inl err \<Rightarrow> ([], [Connect ip port handshakeType, DebugLog failure]))"

text \<open>The loop of \<open>defaultTLSHandler\<close> that filters the certificates of each result.\<close>

definition filter_result :: "Lib \<Rightarrow> ExcludeCertRule list \<Rightarrow> ScanResult \<Rightarrow> ScanResult" where
  "filter_result lib excludeCerts r =
     r\<lparr>Certificates := filterCerts lib (decodeBase64Certs lib (Certificates r)) excludeCerts\<rparr>"

text \<open>\<open>defaultTLSHandler\<close>; the protocol string only reaches the probe and is left
  out. It returns \<open>true\<close> unless the sink ends the process.\<close>

definition defaultTLSHandler ::
  "Lib \<Rightarrow> Config \<Rightarrow> Net \<Rightarrow> Sink \<Rightarrow> string \<Rightarrow> string \<Rightarrow> int \<Rightarrow>
   event list \<times> bool control" where
  "defaultTLSHandler lib cfg net sink ip hostname port =
     (let (r1, e1) = probe_family lib net ip hostname port ''ecdsa'' ''ECDSA handshake failed: %v'';
          (r2, e2) = probe_family lib net ip hostname port ''rsa'' ''RSA handshake failed: %v'';
          results = map (filter_result lib (ExcludeCerts cfg)) (r1 @ r2)
      in if length results > 0 then
           (case sendToWebhook cfg sink results (WebhookURL cfg) of
              (e3, Return u) \<Rightarrow> (e1 @ e2 @ e3, Return True)
            | (e3, OsExit n) \<Rightarrow> (e1 @ e2 @ e3, OsExit n))
         else (e1 @ e2, Return True))"

section \<open>Protocol dispatcher\<close>

definition AllowedProtocols :: "string list" where
  "AllowedProtocols = [''http1'', ''h2'', ''h3'', ''smtp'', ''ldap'', ''imap'', ''pop3'', ''custom'']"

definition webPorts :: "int \<Rightarrow> bool" where
  "webPorts port = (port \<in> {443, 8443, 4433, 5001, 10443})"

definition smtpPorts :: "int \<Rightarrow> bool" where
  "smtpPorts port = (port \<in> {25, 465, 587})"

text \<open>The effective protocol of a port, as the task of \<open>ScanAndSendWithProtocol\<close>
  computes it from the protocol argument.\<close>

definition resolve_proto :: "string \<Rightarrow> int \<Rightarrow> string" where
  "resolve_proto protocol port =
     (if protocol = [] \<and> webPorts port then ''http1''
      else if smtpPorts port then ''smtp''
      else protocol)"

text \<open>Modelled from the spec: \<open>shared.Contains\<close>, of package \<open>shared\<close>, is not in the
  sources at hand; the spec has a protocol absent from the allow-list rejected, so it is
  membership in the list.\<close>

definition shared_Contains :: "string list \<Rightarrow> string \<Rightarrow> bool" where
  "shared_Contains xs x = (x \<in> set xs)"

text \<open>The handlers of the map \<open>protocolHandlers\<close>, by name.\<close>

datatype handler = SMTP | IMAP | POP3 | LDAP | Custom | WebTLS string

definition protocolHandlers :: "string \<Rightarrow> handler option" where
  "protocolHandlers =
     [''smtp'' \<mapsto> SMTP, ''imap'' \<mapsto> IMAP, ''pop3'' \<mapsto> POP3, ''ldap'' \<mapsto> LDAP,
      ''custom'' \<mapsto> Custom, ''http1'' \<mapsto> WebTLS ''http1'', ''h2'' \<mapsto> WebTLS ''h2'',
      ''h3'' \<mapsto> WebTLS ''h3'']"

text \<open>
  The surroundings of a port task. \<open>smtpProtocolHandler\<close> is named by the map but
  defined outside the sources at hand: it is a parameter.
\<close>

record World =
  wLib :: Lib
  wConfig :: Config
  wNet :: Net
  wSink :: Sink
  smtpProtocolHandler :: "string \<Rightarrow> string \<Rightarrow> int \<Rightarrow> event list \<times> bool control"

definition run_handler ::
  "World \<Rightarrow> handler \<Rightarrow> string \<Rightarrow> string \<Rightarrow> int \<Rightarrow> event list \<times> bool control" where
  "run_handler w h ip hostname port =
     (case h of
        SMTP \<Rightarrow> smtpProtocolHandler w ip hostname port
      | IMAP \<Rightarrow> ([DebugLog ''IMAP protocol handler not implemented for %s:%d''], Return False)
      | POP3 \<Rightarrow> ([DebugLog ''POP3 protocol handler not implemented for %s:%d''], Return False)
      | LDAP \<Rightarrow> ([DebugLog ''LDAP protocol handler not implemented for %s:%d''], Return False)
      | Custom \<Rightarrow> ([DebugLog ''Custom protocol handler not implemented for %s:%d''], Return False)
      | WebTLS proto \<Rightarrow> defaultTLSHandler (wLib w) (wConfig w) (wNet w) (wSink w) ip hostname port)"

text \<open>The body of the task that \<open>ScanAndSendWithProtocol\<close> starts for one port.\<close>

definition port_task ::
  "World \<Rightarrow> string \<Rightarrow> string \<Rightarrow> string \<Rightarrow> int \<Rightarrow> event list \<times> unit control" where
  "port_task w ip hostname protocol port =
     (let proto = resolve_proto protocol port in
      if proto \<noteq> [] \<and> \<not> shared_Contains AllowedProtocols proto then
        ([DebugLog ''Protocol %s not allowed for %s:%d''], Return ())
      else
        (case protocolHandlers proto of
           Some h \<Rightarrow>
             (case run_handler w h ip hostname port of
                (e, Return handled) \<Rightarrow>
                  (DebugLog ''Scanning %s -> %s:%d (protocol: %s)'' # e, Return ())
              | (e, OsExit n) \<Rightarrow>
                  (DebugLog ''Scanning %s -> %s:%d (protocol: %s)'' # e, OsExit n))
         | None \<Rightarrow>
             ([ErrorLog ''No handler for protocol %s, falling back to default TLS scan''],
              Return ())))"


section \<open>Scan scheduler\<close>

text \<open>
  \<open>make(chan struct{}, size)\<close> panics when the size is negative; otherwise the channel
  buffers that many elements.
\<close>

datatype go_panic = MakechanSizeOutOfRange

definition make_chan :: "int \<Rightarrow> go_panic + nat" where
  "make_chan n = (if n < 0 then Inl MakechanSizeOutOfRange else Inr (nat n))"

text \<open>
  The launching loop of \<open>ScanAndSendWithProtocol\<close>: the ports that the loop has not
  reached, and the ports whose task has been started and holds an element of \<open>sem\<close>.
  What a started task does is \<open>port_task\<close>; only the loop is followed here.
\<close>

record sched =
  pending :: "int list"
  running :: "int list"

definition sched_init :: "int list \<Rightarrow> sched" where
  "sched_init ports = \<lparr>pending = ports, running = []\<rparr>"

text \<open>
  One turn of the loop: \<open>sem <- struct{}{}\<close>, then \<open>go func(port int)\<close>. The send goes
  through when the buffer holds fewer elements than its capacity, or when a receiver is
  waiting; the only receivers of \<open>sem\<close> are the deferred calls of started tasks, so with
  no room in the buffer the turn waits. The list is empty when the turn cannot be taken.
\<close>

definition launch :: "nat \<Rightarrow> sched \<Rightarrow> sched list" where
  "launch cap s =
     (case pending s of
        [] \<Rightarrow> []
      | port # rest \<Rightarrow>
          if length (running s) < cap then [s\<lparr>pending := rest, running := running s @ [port]\<rparr>]
          else [])"

text \<open>The head of \<open>ScanAndSendWithProtocol\<close>: the admission gate is made with
  \<open>shared.Config.ConcurrencyLimit\<close> as its capacity, and the loop starts on the
  ports.\<close>

definition scheduler_start :: "Config \<Rightarrow> int list \<Rightarrow> go_panic + (nat \<times> sched)" where
  "scheduler_start cfg ports =
     (case make_chan (ConcurrencyLimit cfg) of
        Inl p \<Rightarrow> Inl p
      | Inr cap \<Rightarrow> Inr (cap, sched_init ports))"


section \<open>Reading a trace\<close>

text \<open>The cipher families of the dials in a trace, and the result lists of the payloads
  posted in it, both in order.\<close>

fun attempts :: "event list \<Rightarrow> string list" where
  "attempts [] = []"
| "attempts (Connect ip port family # es) = family # attempts es"
| "attempts (e # es) = attempts es"

fun posted :: "event list \<Rightarrow> ScanResult list list" where
  "posted [] = []"
| "posted (Post url timeout headers payload # es) = ScanResults payload # posted es"
| "posted (e # es) = posted es"

section \<open>Concrete surroundings\<close>

text \<open>Values on which the definitions are evaluated: a configuration, a webhook that
  answers every request with one status, and a peer that answers each cipher family in a
  fixed way.\<close>

definition example_config :: "string \<Rightarrow> int \<Rightarrow> ExcludeCertRule list \<Rightarrow> Config" where
  "example_config token limit rules =
     \<lparr>WebhookURL = ''http://localhost:8000/webhook'', Token = token, WebhookTimeoutMs = 0,
      DialTimeoutMs = 1000, ConcurrencyLimit = limit, ExcludeCerts = rules\<rparr>"

definition sink_answering :: "int \<Rightarrow> Sink" where
  "sink_answering status =
     \<lparr>GetPrimaryIP = ''192.0.2.7'', GetMachineID = ''agent-1'',
      Webhook = (\<lambda>payload. Response status)\<rparr>"

definition example_net :: "tls_outcome \<Rightarrow> tls_outcome \<Rightarrow> Net" where
  "example_net ecdsa rsa =
     \<lparr>Now = 1700000000,
      Peer = (\<lambda>ip port family. if family = ''ecdsa'' then ecdsa else rsa)\<rparr>"

text \<open>A mail server that accepts the connection, sends the given lines and presents one
  certificate after the upgrade.\<close>

definition smtp_example :: "string list \<Rightarrow> smtp_peer" where
  "smtp_example replies =
     \<lparr>Accepts = True, Replies = replies, Upgrade = Some [''CN=Good CA|mail'']\<rparr>"

text \<open>Surroundings of a port task: a peer that refuses every dial and an SMTP handler that
  does nothing.\<close>

definition example_world :: World where
  "example_world =
     \<lparr>wLib = sample_lib, wConfig = example_config [] 4 [],
      wNet = example_net DialFails DialFails, wSink = sink_answering 200,
      smtpProtocolHandler = (\<lambda>ip hostname port. ([], Return True))\<rparr>"


section \<open>Properties of the string functions\<close>

lemma HasPrefix_iff_prefix: "HasPrefix s p \<longleftrightarrow> prefix p s"
  unfolding HasPrefix_def prefix_def
  by (metis append_eq_conv_conj append_take_drop_id length_append le_add1)

lemma HasSuffix_iff_suffix: "HasSuffix s p \<longleftrightarrow> suffix p s"
proof
  assume h: "HasSuffix s p"
  then have "s = take (length s - length p) s @ p"
    unfolding HasSuffix_def by (metis append_take_drop_id)
  then show "suffix p s" unfolding suffix_def by blast
next
  assume "suffix p s"
  then obtain q where q: "s = q @ p" unfolding suffix_def by blast
  then show "HasSuffix s p" unfolding HasSuffix_def by simp
qed

lemma Contains_iff_sublist: "Contains s sub \<longleftrightarrow> sublist sub s"
proof (induction s)
  case Nil
  then show ?case by simp
next
  case (Cons c s)
  then show ?case
    by (simp add: HasPrefix_iff_prefix sublist_Cons_right)
qed

lemma HasPrefix_star: "HasPrefix p ''*'' \<longleftrightarrow> p \<noteq> [] \<and> hd p = CHR ''*''"
  by (cases p) (auto simp: HasPrefix_def)

lemma HasSuffix_star: "HasSuffix p ''*'' \<longleftrightarrow> p \<noteq> [] \<and> last p = CHR ''*''"
  by (cases p rule: rev_cases) (auto simp: HasSuffix_def)

lemma slice_butlast_tl: "drop 1 (take (length p - 1) p) = butlast (tl p)"
  by (metis butlast_conv_take drop_Suc drop_0 One_nat_def butlast_tl drop_butlast)

subsection \<open>ASCII case folding\<close>

lemma ascii_lower_byte_star: "ascii_lower_byte c = CHR ''*'' \<longleftrightarrow> c = CHR ''*''"
proof
  assume h: "ascii_lower_byte c = CHR ''*''"
  show "c = CHR ''*''"
  proof (cases "65 \<le> (of_char c :: nat) \<and> (of_char c :: nat) \<le> 90")
    case True
    with h have "char_of (of_char c + (32::nat)) = CHR ''*''"
      by (simp add: ascii_lower_byte_def)
    then have "(of_char (char_of (of_char c + (32::nat))) :: nat) = of_char (CHR ''*'')"
      by simp
    with True show ?thesis by simp
  next
    case False
    with h show ?thesis by (auto simp add: ascii_lower_byte_def Let_def)
  qed
next
  assume "c = CHR ''*''"
  then show "ascii_lower_byte c = CHR ''*''" by (simp add: ascii_lower_byte_def)
qed

lemma ascii_lower_byte_idem: "ascii_lower_byte (ascii_lower_byte c) = ascii_lower_byte c"
proof (cases "65 \<le> (of_char c :: nat) \<and> (of_char c :: nat) \<le> 90")
  case True
  then have "(of_char (char_of (of_char c + (32::nat))) :: nat) = of_char c + 32" by simp
  with True show ?thesis by (simp add: ascii_lower_byte_def Let_def)
next
  case False
  then show ?thesis by (auto simp add: ascii_lower_byte_def Let_def)
qed

lemma ascii_lower_upper_byte: "ascii_lower_byte (ascii_upper_byte c) = ascii_lower_byte c"
proof (cases "97 \<le> (of_char c :: nat) \<and> (of_char c :: nat) \<le> 122")
  case True
  have lt: "(of_char c :: nat) - 32 < 256" using True by arith
  have e: "(of_char (char_of (of_char c - (32::nat))) :: nat) = of_char c - 32"
    using lt by simp
  have "of_char c - (32::nat) + 32 = of_char c" using True by arith
  then have "char_of (of_char c - (32::nat) + 32) = c" by simp
  moreover have "65 \<le> (of_char c :: nat) - 32 \<and> (of_char c :: nat) - 32 \<le> 90"
    using True by arith
  moreover have "\<not> ((of_char c :: nat) \<le> 90)" using True by arith
  ultimately show ?thesis using True e
    by (simp add: ascii_lower_byte_def ascii_upper_byte_def Let_def)
next
  case False
  then show ?thesis by (auto simp add: ascii_upper_byte_def Let_def)
qed

lemma ascii_lower_byte_ascii:
  "(of_char c :: nat) < 128 \<Longrightarrow> (of_char (ascii_lower_byte c) :: nat) < 128"
proof (cases "65 \<le> (of_char c :: nat) \<and> (of_char c :: nat) \<le> 90")
  case True
  then have "(of_char (char_of (of_char c + (32::nat))) :: nat) = of_char c + 32" by simp
  with True show ?thesis by (simp add: ascii_lower_byte_def Let_def)
next
  case False
  assume "(of_char c :: nat) < 128"
  with False show ?thesis by (auto simp add: ascii_lower_byte_def Let_def)
qed

lemma ascii_upper_byte_ascii:
  "(of_char c :: nat) < 128 \<Longrightarrow> (of_char (ascii_upper_byte c) :: nat) < 128"
proof (cases "97 \<le> (of_char c :: nat) \<and> (of_char c :: nat) \<le> 122")
  case True
  have lt: "(of_char c :: nat) - 32 < 256" using True by arith
  have e: "(of_char (char_of (of_char c - (32::nat))) :: nat) = of_char c - 32"
    using lt by simp
  have "(of_char c :: nat) - 32 < 128" using True by arith
  with True e show ?thesis by (simp add: ascii_upper_byte_def Let_def)
next
  case False
  assume "(of_char c :: nat) < 128"
  with False show ?thesis by (auto simp add: ascii_upper_byte_def Let_def)
qed

lemma ascii_lower_idem: "ascii_lower (ascii_lower s) = ascii_lower s"
  by (simp add: ascii_lower_def ascii_lower_byte_idem)

lemma ascii_lower_upper: "ascii_lower (ascii_upper s) = ascii_lower s"
  by (simp add: ascii_lower_def ascii_upper_def ascii_lower_upper_byte)

lemma is_ascii_lower: "is_ascii s \<Longrightarrow> is_ascii (ascii_lower s)"
  by (simp add: is_ascii_def ascii_lower_def list_all_iff ascii_lower_byte_ascii)

lemma is_ascii_upper: "is_ascii s \<Longrightarrow> is_ascii (ascii_upper s)"
  by (simp add: is_ascii_def ascii_upper_def list_all_iff ascii_upper_byte_ascii)

text \<open>The case folding of the sample library has the properties of \<open>strings.ToLower\<close>
  that the matcher relies on.\<close>

lemma sample_ToLower_empty: "\<forall>x. ToLower sample_lib x = [] \<longleftrightarrow> x = []"
  by (simp add: sample_lib_def ascii_lower_def)

lemma sample_ToLower_star_after:
  "\<forall>x. ToLower sample_lib (x @ ''*'') = ToLower sample_lib x @ ''*''"
  by (simp add: sample_lib_def ascii_lower_def ascii_lower_byte_star)

lemma sample_ToLower_star_before:
  "\<forall>x. ToLower sample_lib (''*'' @ x) = ''*'' @ ToLower sample_lib x"
  by (simp add: sample_lib_def ascii_lower_def ascii_lower_byte_star)

lemma sample_ToLower_first:
  "\<forall>x. x \<noteq> [] \<and> hd x \<noteq> CHR ''*'' \<longrightarrow> hd (ToLower sample_lib x) \<noteq> CHR ''*''"
  by (simp add: sample_lib_def ascii_lower_def hd_map ascii_lower_byte_star)

lemma sample_ToLower_final:
  "\<forall>x. x \<noteq> [] \<and> last x \<noteq> CHR ''*'' \<longrightarrow> last (ToLower sample_lib x) \<noteq> CHR ''*''"
  by (simp add: sample_lib_def ascii_lower_def last_map ascii_lower_byte_star)

lemma sample_ToLower_ascii: "\<forall>x. is_ascii x \<longrightarrow> ToLower sample_lib x = ascii_lower x"
  by (simp add: sample_lib_def)

subsection \<open>The matcher on the lower-cased strings\<close>

lemma hd_ToLower_star:
  assumes "\<forall>x. ToLower lib (''*'' @ x) = ''*'' @ ToLower lib x"
    and "\<forall>x. x \<noteq> [] \<and> hd x \<noteq> CHR ''*'' \<longrightarrow> hd (ToLower lib x) \<noteq> CHR ''*''"
    and "p \<noteq> []"
  shows "hd (ToLower lib p) = CHR ''*'' \<longleftrightarrow> hd p = CHR ''*''"
proof
  assume "hd (ToLower lib p) = CHR ''*''"
  with assms(2,3) show "hd p = CHR ''*''" by blast
next
  assume "hd p = CHR ''*''"
  with assms(3) have "p = ''*'' @ tl p" by (cases p) simp_all
  then have "ToLower lib p = ''*'' @ ToLower lib (tl p)" using assms(1) by metis
  then show "hd (ToLower lib p) = CHR ''*''" by simp
qed

lemma last_ToLower_star:
  assumes "\<forall>x. ToLower lib (x @ ''*'') = ToLower lib x @ ''*''"
    and "\<forall>x. x \<noteq> [] \<and> last x \<noteq> CHR ''*'' \<longrightarrow> last (ToLower lib x) \<noteq> CHR ''*''"
    and "p \<noteq> []"
  shows "last (ToLower lib p) = CHR ''*'' \<longleftrightarrow> last p = CHR ''*''"
proof
  assume "last (ToLower lib p) = CHR ''*''"
  with assms(2,3) show "last p = CHR ''*''" by blast
next
  assume "last p = CHR ''*''"
  with assms(3) have "p = butlast p @ ''*''" by (cases p rule: rev_cases) simp_all
  then have "ToLower lib p = ToLower lib (butlast p) @ ''*''" using assms(1) by metis
  then show "last (ToLower lib p) = CHR ''*''" by simp
qed

text \<open>The matcher reads the pattern and the string only through their lower-cased
  forms, once the pattern is known not to be empty.\<close>

lemma matchWildcard_lowered:
  assumes "ToLower lib p = lp" and "ToLower lib s = ls"
  shows "matchWildcard lib p s \<longleftrightarrow>
     p \<noteq> [] \<and>
     (if lp = ''*'' then True
      else if HasPrefix lp ''*'' \<and> HasSuffix lp ''*'' then
        Contains ls (drop 1 (take (length lp - 1) lp))
      else if HasPrefix lp ''*'' then HasSuffix ls (drop 1 lp)
      else if HasSuffix lp ''*'' then HasPrefix ls (take (length lp - 1) lp)
      else ls = lp)"
  using assms by (cases "p = []") (simp_all only: matchWildcard_def Let_def if_True if_False simp_thms)

lemma matchWildcard_char:
  assumes empty: "\<forall>x. ToLower lib x = [] \<longleftrightarrow> x = []"
    and star_after: "\<forall>x. ToLower lib (x @ ''*'') = ToLower lib x @ ''*''"
    and star_before: "\<forall>x. ToLower lib (''*'' @ x) = ''*'' @ ToLower lib x"
    and first: "\<forall>x. x \<noteq> [] \<and> hd x \<noteq> CHR ''*'' \<longrightarrow> hd (ToLower lib x) \<noteq> CHR ''*''"
    and final: "\<forall>x. x \<noteq> [] \<and> last x \<noteq> CHR ''*'' \<longrightarrow> last (ToLower lib x) \<noteq> CHR ''*''"
  shows "matchWildcard lib p s \<longleftrightarrow>
     p \<noteq> [] \<and>
     (if ToLower lib p = ''*'' then True
      else if hd p = CHR ''*'' \<and> last p = CHR ''*'' then
        sublist (butlast (tl (ToLower lib p))) (ToLower lib s)
      else if hd p = CHR ''*'' then suffix (tl (ToLower lib p)) (ToLower lib s)
      else if last p = CHR ''*'' then prefix (butlast (ToLower lib p)) (ToLower lib s)
      else ToLower lib s = ToLower lib p)"
proof (cases "p = []")
  case True
  then show ?thesis by (simp add: matchWildcard_def)
next
  case False
  then have ne: "ToLower lib p \<noteq> []" using empty by simp
  have hp: "HasPrefix (ToLower lib p) ''*'' \<longleftrightarrow> hd p = CHR ''*''"
    using ne hd_ToLower_star [OF star_before first False] by (simp add: HasPrefix_star)
  have hs: "HasSuffix (ToLower lib p) ''*'' \<longleftrightarrow> last p = CHR ''*''"
    using ne last_ToLower_star [OF star_after final False] by (simp add: HasSuffix_star)
  have d1: "drop 1 (ToLower lib p) = tl (ToLower lib p)" by (simp add: drop_Suc)
  have t1: "take (length (ToLower lib p) - 1) (ToLower lib p) = butlast (ToLower lib p)"
    by (simp add: butlast_conv_take)
  have "matchWildcard lib p s \<longleftrightarrow>
     (if ToLower lib p = ''*'' then True
      else if hd p = CHR ''*'' \<and> last p = CHR ''*'' then
        Contains (ToLower lib s) (butlast (tl (ToLower lib p)))
      else if hd p = CHR ''*'' then HasSuffix (ToLower lib s) (tl (ToLower lib p))
      else if last p = CHR ''*'' then HasPrefix (ToLower lib s) (butlast (ToLower lib p))
      else ToLower lib s = ToLower lib p)"
    using False by (simp only: matchWildcard_def Let_def hp hs slice_butlast_tl d1 t1 if_False)
  then show ?thesis
    using False
    by (simp only: Contains_iff_sublist HasSuffix_iff_suffix HasPrefix_iff_prefix simp_thms)
qed

section \<open>The wildcard matcher by pattern shape\<close>

lemma matchWildcard_fold:
  assumes empty: "\<forall>x. ToLower lib x = [] \<longleftrightarrow> x = []"
    and p: "ToLower lib p = ToLower lib p'"
    and s: "ToLower lib s = ToLower lib s'"
  shows "matchWildcard lib p s = matchWildcard lib p' s'"
proof -
  have n: "p = [] \<longleftrightarrow> p' = []" using empty p by metis
  show ?thesis
    unfolding matchWildcard_lowered [OF p s] matchWildcard_lowered [OF refl refl, of lib p' s'] n
    by (rule refl)
qed

text \<open>
  Claim C5. \<open>strings.ToLower\<close> is the library's; of it the statement supposes what holds
  of the Go function on every byte string: it gives the empty string for the empty string
  only; a star put behind or in front of a string stays where it is and the rest is
  lower-cased as without it (the star is one ASCII byte, which the UTF-8 decoder never
  joins to its neighbours); a string that does not begin, or end, with a star does not do
  so after lower-casing (no letter has the star as its lower case, and the byte of the
  star occurs in the encoding of no other character); and on a string of ASCII bytes it
  changes \<open>A..Z\<close> to \<open>a..z\<close> and nothing else.

  Then, for every pattern and string: the empty pattern matches nothing; \<open>*\<close> matches
  every string, the empty one too; a pattern \<open>prefix*\<close> (whose prefix does not itself
  begin with a star) matches exactly the strings that begin with the prefix; a pattern
  \<open>*suffix\<close> (whose suffix does not itself end with a star) matches exactly the strings
  that end with the suffix; a pattern \<open>*mid*\<close> matches exactly the strings that contain
  \<open>mid\<close>; any other pattern matches exactly the strings equal to it. Prefix, suffix,
  containment and equality are all taken after lower-casing both sides, which is what
  case-insensitive means here: two patterns with the same lower case and two strings with
  the same lower case match alike, and ASCII strings can be put in upper or in lower
  case without changing the outcome. The five examples of the spec hold.
\<close>

theorem matchWildcard_shapes:
  assumes empty: "\<forall>x. ToLower lib x = [] \<longleftrightarrow> x = []"
    and star_after: "\<forall>x. ToLower lib (x @ ''*'') = ToLower lib x @ ''*''"
    and star_before: "\<forall>x. ToLower lib (''*'' @ x) = ''*'' @ ToLower lib x"
    and first: "\<forall>x. x \<noteq> [] \<and> hd x \<noteq> CHR ''*'' \<longrightarrow> hd (ToLower lib x) \<noteq> CHR ''*''"
    and final: "\<forall>x. x \<noteq> [] \<and> last x \<noteq> CHR ''*'' \<longrightarrow> last (ToLower lib x) \<noteq> CHR ''*''"
    and ascii: "\<forall>x. is_ascii x \<longrightarrow> ToLower lib x = ascii_lower x"
  shows "\<not> matchWildcard lib [] s
   \<and> matchWildcard lib ''*'' s
   \<and> (pre = [] \<or> hd pre \<noteq> CHR ''*'' \<longrightarrow>
        matchWildcard lib (pre @ ''*'') s = prefix (ToLower lib pre) (ToLower lib s))
   \<and> (suf = [] \<or> last suf \<noteq> CHR ''*'' \<longrightarrow>
        matchWildcard lib (''*'' @ suf) s = suffix (ToLower lib suf) (ToLower lib s))
   \<and> matchWildcard lib (''*'' @ mid @ ''*'') s = sublist (ToLower lib mid) (ToLower lib s)
   \<and> (p \<noteq> [] \<and> hd p \<noteq> CHR ''*'' \<and> last p \<noteq> CHR ''*'' \<longrightarrow>
        matchWildcard lib p s = (ToLower lib s = ToLower lib p))
   \<and> (ToLower lib p = ToLower lib p' \<and> ToLower lib s = ToLower lib s' \<longrightarrow>
        matchWildcard lib p s = matchWildcard lib p' s')
   \<and> (is_ascii p \<and> is_ascii s \<longrightarrow>
        matchWildcard lib (ascii_upper p) (ascii_upper s) = matchWildcard lib p s \<and>
        matchWildcard lib (ascii_lower p) (ascii_lower s) = matchWildcard lib p s)
   \<and> matchWildcard lib ''*.example.com'' ''mail.example.com''
   \<and> matchWildcard lib ''*example*'' ''xexampley''
   \<and> matchWildcard lib ''example.com'' ''example.com''
   \<and> \<not> matchWildcard lib [] ''anything''
   \<and> matchWildcard lib ''*'' []"
proof -
  note char = matchWildcard_char [OF empty star_after star_before first final]
  have nil: "ToLower lib [] = []" using empty by simp
  have ne: "ToLower lib x \<noteq> []" if "x \<noteq> []" for x using empty that by simp
  have star: "ToLower lib ''*'' = ''*''" using star_after [rule_format, of "[]"] nil by simp
  have c1: "\<not> matchWildcard lib [] s" for s by (simp add: matchWildcard_def)
  have c2: "matchWildcard lib ''*'' s" for s by (simp add: matchWildcard_def star)
  have c3: "matchWildcard lib (pre @ ''*'') s = prefix (ToLower lib pre) (ToLower lib s)"
    if "pre = [] \<or> hd pre \<noteq> CHR ''*''"
  proof (cases "pre = []")
    case True
    then show ?thesis using c2 nil by simp
  next
    case False
    with that have "hd (pre @ ''*'') \<noteq> CHR ''*''" by simp
    moreover have e: "ToLower lib (pre @ ''*'') = ToLower lib pre @ ''*''"
      using star_after by simp
    moreover have "ToLower lib pre @ ''*'' \<noteq> ''*''" using ne [OF False] by simp
    ultimately show ?thesis
      by (simp add: char [of "pre @ ''*''" s])
  qed
  have c4: "matchWildcard lib (''*'' @ suf) s = suffix (ToLower lib suf) (ToLower lib s)"
    if "suf = [] \<or> last suf \<noteq> CHR ''*''"
  proof (cases "suf = []")
    case True
    then show ?thesis using c2 nil by simp
  next
    case False
    with that have l: "last (''*'' @ suf) \<noteq> CHR ''*''" by simp
    have e: "ToLower lib (''*'' @ suf) = ''*'' @ ToLower lib suf"
      using star_before by simp
    have n: "''*'' @ ToLower lib suf \<noteq> ''*''" using ne [OF False] by simp
    have h: "hd (''*'' @ suf) = CHR ''*''" by simp
    have "''*'' @ suf \<noteq> []" by simp
    then show ?thesis
      unfolding char [of "''*'' @ suf" s] e using l n h by simp
  qed
  have c5: "matchWildcard lib (''*'' @ mid @ ''*'') s = sublist (ToLower lib mid) (ToLower lib s)"
  proof -
    have "ToLower lib (''*'' @ mid @ ''*'') = ''*'' @ ToLower lib (mid @ ''*'')"
      using star_before by simp
    then have e: "ToLower lib (''*'' @ mid @ ''*'') = CHR ''*'' # ToLower lib mid @ ''*''"
      using star_after by simp
    have "last (''*'' @ mid @ ''*'') = CHR ''*''" by simp
    moreover have "hd (''*'' @ mid @ ''*'') = CHR ''*''" by simp
    moreover have "butlast (tl (CHR ''*'' # ToLower lib mid @ ''*'')) = ToLower lib mid"
      by (simp add: butlast_append)
    ultimately show ?thesis
      unfolding char [of "''*'' @ mid @ ''*''" s] e by simp
  qed
  have c6: "matchWildcard lib p s = (ToLower lib s = ToLower lib p)"
    if "p \<noteq> [] \<and> hd p \<noteq> CHR ''*'' \<and> last p \<noteq> CHR ''*''"
  proof -
    have "hd (ToLower lib p) \<noteq> CHR ''*''" using first that by simp
    then have "ToLower lib p \<noteq> ''*''" by auto
    then show ?thesis using that by (simp add: char [of p s])
  qed
  have c7: "matchWildcard lib p s = matchWildcard lib p' s'"
    if "ToLower lib p = ToLower lib p' \<and> ToLower lib s = ToLower lib s'"
    using matchWildcard_fold [OF empty, of p p' s s'] that by simp
  have low: "ToLower lib x = ascii_lower x" if "is_ascii x" for x using ascii that by simp
  have c8: "matchWildcard lib (ascii_upper p) (ascii_upper s) = matchWildcard lib p s \<and>
        matchWildcard lib (ascii_lower p) (ascii_lower s) = matchWildcard lib p s"
    if a: "is_ascii p \<and> is_ascii s"
  proof
    have "ToLower lib (ascii_upper p) = ToLower lib p"
      using a by (simp add: low is_ascii_upper ascii_lower_upper)
    moreover have "ToLower lib (ascii_upper s) = ToLower lib s"
      using a by (simp add: low is_ascii_upper ascii_lower_upper)
    ultimately show "matchWildcard lib (ascii_upper p) (ascii_upper s) = matchWildcard lib p s"
      by (rule matchWildcard_fold [OF empty])
  next
    have "ToLower lib (ascii_lower p) = ToLower lib p"
      using a by (simp add: low is_ascii_lower ascii_lower_idem)
    moreover have "ToLower lib (ascii_lower s) = ToLower lib s"
      using a by (simp add: low is_ascii_lower ascii_lower_idem)
    ultimately show "matchWildcard lib (ascii_lower p) (ascii_lower s) = matchWildcard lib p s"
      by (rule matchWildcard_fold [OF empty])
  qed
  have a1: "is_ascii ''*.example.com''" and a2: "is_ascii ''mail.example.com''"
    and a3: "is_ascii ''*example*''" and a4: "is_ascii ''xexampley''"
    and a5: "is_ascii ''example.com''"
    by code_simp+
  have l1: "ascii_lower ''*.example.com'' = ''*.example.com''"
    and l2: "ascii_lower ''mail.example.com'' = ''mail.example.com''"
    and l3: "ascii_lower ''*example*'' = ''*example*''"
    and l4: "ascii_lower ''xexampley'' = ''xexampley''"
    and l5: "ascii_lower ''example.com'' = ''example.com''"
    by code_simp+
  have e1: "matchWildcard lib ''*.example.com'' ''mail.example.com''"
    unfolding matchWildcard_lowered [OF low [OF a1, unfolded l1] low [OF a2, unfolded l2]]
    by code_simp
  have e2: "matchWildcard lib ''*example*'' ''xexampley''"
    unfolding matchWildcard_lowered [OF low [OF a3, unfolded l3] low [OF a4, unfolded l4]]
    by code_simp
  have e3: "matchWildcard lib ''example.com'' ''example.com''"
    unfolding matchWildcard_lowered [OF low [OF a5, unfolded l5] low [OF a5, unfolded l5]]
    by code_simp
  show ?thesis
    using c1 c2 c3 c4 c5 c6 c7 c8 e1 e2 e3 by blast
qed

theorem matchWildcard_shapes_witness:
  "matchWildcard sample_lib (''Mail.'' @ ''*'') ''MAIL.example.com''
   \<and> matchWildcard sample_lib (''*'' @ ''.Example.COM'') ''mail.example.com''
   \<and> \<not> matchWildcard sample_lib (''*'' @ ''.example.com'') ''example.org''
   \<and> \<not> matchWildcard sample_lib ''a*b'' ''aXb''
   \<and> matchWildcard sample_lib ''a*b'' ''A*B''
   \<and> matchWildcard sample_lib (ascii_upper ''*Evil*'') (ascii_upper ''CN=Evil CA'') =
       matchWildcard sample_lib ''*Evil*'' ''CN=Evil CA''
   \<and> matchWildcard sample_lib ''*.example.com'' ''mail.example.com''"
proof -
  note shapes = matchWildcard_shapes [OF sample_ToLower_empty sample_ToLower_star_after
      sample_ToLower_star_before sample_ToLower_first sample_ToLower_final sample_ToLower_ascii]
  have p: "''Mail.'' = [] \<or> hd ''Mail.'' \<noteq> CHR ''*''" by simp
  have s: "''.Example.COM'' = [] \<or> last ''.Example.COM'' \<noteq> CHR ''*''" by simp
  have s2: "''.example.com'' = [] \<or> last ''.example.com'' \<noteq> CHR ''*''" by simp
  have e: "''a*b'' \<noteq> [] \<and> hd ''a*b'' \<noteq> CHR ''*'' \<and> last ''a*b'' \<noteq> CHR ''*''" by simp
  have u: "is_ascii ''*Evil*'' \<and> is_ascii ''CN=Evil CA''" by code_simp
  have l1: "prefix (ToLower sample_lib ''Mail.'') (ToLower sample_lib ''MAIL.example.com'')"
    by code_simp
  have l2: "suffix (ToLower sample_lib ''.Example.COM'') (ToLower sample_lib ''mail.example.com'')"
    by code_simp
  have l3: "\<not> suffix (ToLower sample_lib ''.example.com'') (ToLower sample_lib ''example.org'')"
    by code_simp
  have l4: "ToLower sample_lib ''aXb'' \<noteq> ToLower sample_lib ''a*b''" by code_simp
  have l5: "ToLower sample_lib ''A*B'' = ToLower sample_lib ''a*b''" by code_simp
  note a = shapes [where s = "''MAIL.example.com''" and pre = "''Mail.''"]
  note b = shapes [where s = "''mail.example.com''" and suf = "''.Example.COM''"]
  note c = shapes [where s = "''example.org''" and suf = "''.example.com''"]
  note d = shapes [where s = "''aXb''" and p = "''a*b''"]
  note f = shapes [where s = "''A*B''" and p = "''a*b''"]
  note g = shapes [where s = "''CN=Evil CA''" and p = "''*Evil*''"]
  have r1: "matchWildcard sample_lib (''Mail.'' @ ''*'') ''MAIL.example.com''"
    using mp [OF a [THEN conjunct2, THEN conjunct2, THEN conjunct1] p] l1 by (rule iffD2)
  have r2: "matchWildcard sample_lib (''*'' @ ''.Example.COM'') ''mail.example.com''"
    using mp [OF b [THEN conjunct2, THEN conjunct2, THEN conjunct2, THEN conjunct1] s] l2
    by (rule iffD2)
  have r3: "\<not> matchWildcard sample_lib (''*'' @ ''.example.com'') ''example.org''"
    using mp [OF c [THEN conjunct2, THEN conjunct2, THEN conjunct2, THEN conjunct1] s2] l3
    by blast
  have r4: "\<not> matchWildcard sample_lib ''a*b'' ''aXb''"
    using mp [OF d [THEN conjunct2, THEN conjunct2, THEN conjunct2, THEN conjunct2,
          THEN conjunct2, THEN conjunct1] e] l4
    by blast
  have r5: "matchWildcard sample_lib ''a*b'' ''A*B''"
    using mp [OF f [THEN conjunct2, THEN conjunct2, THEN conjunct2, THEN conjunct2,
          THEN conjunct2, THEN conjunct1] e] l5
    by blast
  have r6: "matchWildcard sample_lib (ascii_upper ''*Evil*'') (ascii_upper ''CN=Evil CA'') =
       matchWildcard sample_lib ''*Evil*'' ''CN=Evil CA''"
    using mp [OF g [THEN conjunct2, THEN conjunct2, THEN conjunct2, THEN conjunct2,
          THEN conjunct2, THEN conjunct2, THEN conjunct2, THEN conjunct1] u]
    by (rule conjunct1)
  have r7: "matchWildcard sample_lib ''*.example.com'' ''mail.example.com''"
    using g [THEN conjunct2, THEN conjunct2, THEN conjunct2, THEN conjunct2,
          THEN conjunct2, THEN conjunct2, THEN conjunct2, THEN conjunct2, THEN conjunct1] .
  show ?thesis
    using r1 r2 r3 r4 r5 r6 r7 by (intro conjI)
qed



section \<open>Effective protocol\<close>

text \<open>
  Claim C1 has a non-empty protocol argument win on every port. Port 25 with the argument
  \<open>http1\<close> resolves to \<open>smtp\<close>.
\<close>

theorem resolve_proto_explicit_counterexample:
  "resolve_proto ''http1'' 25 = ''smtp'' \<and> resolve_proto ''http1'' 25 \<noteq> ''http1''"
  by (simp add: resolve_proto_def webPorts_def smtpPorts_def)

text \<open>
  Claim C1, amended. On the ports 25, 465 and 587 the effective protocol is \<open>smtp\<close>
  whatever the protocol argument is. On every other port a non-empty protocol argument
  wins. With an empty argument the ports 443, 8443, 4433, 5001 and 10443 resolve to
  \<open>http1\<close>, and every remaining port leaves the protocol as it is, that is, empty.
\<close>

theorem resolve_proto_order:
  "(port \<in> {25, 465, 587} \<longrightarrow> resolve_proto protocol port = ''smtp'')
   \<and> (protocol \<noteq> [] \<and> port \<notin> {25, 465, 587} \<longrightarrow> resolve_proto protocol port = protocol)
   \<and> (protocol = [] \<and> port \<in> {443, 8443, 4433, 5001, 10443} \<longrightarrow>
        resolve_proto protocol port = ''http1'')
   \<and> (protocol = [] \<and> port \<notin> {25, 465, 587} \<and> port \<notin> {443, 8443, 4433, 5001, 10443} \<longrightarrow>
        resolve_proto protocol port = protocol)"
  by (auto simp add: resolve_proto_def webPorts_def smtpPorts_def)

theorem resolve_proto_order_witness:
  "resolve_proto ''h2'' 587 = ''smtp''
   \<and> resolve_proto ''h2'' 443 = ''h2''
   \<and> resolve_proto [] 8443 = ''http1''
   \<and> resolve_proto [] 993 = []"
proof -
  have a: "(587::int) \<in> {25, 465, 587}" by simp
  have b: "''h2'' \<noteq> [] \<and> (443::int) \<notin> {25, 465, 587}" by simp
  have c: "([]::string) = [] \<and> (8443::int) \<in> {443, 8443, 4433, 5001, 10443}" by simp
  have d: "([]::string) = [] \<and> (993::int) \<notin> {25, 465, 587}
      \<and> (993::int) \<notin> {443, 8443, 4433, 5001, 10443}" by simp
  have r1: "resolve_proto ''h2'' 587 = ''smtp''"
    using resolve_proto_order [of 587 "''h2''", THEN conjunct1] a by (rule mp)
  have r2: "resolve_proto ''h2'' 443 = ''h2''"
    using resolve_proto_order [of 443 "''h2''", THEN conjunct2, THEN conjunct1] b by (rule mp)
  have r3: "resolve_proto [] 8443 = ''http1''"
    using resolve_proto_order [of 8443 "[]", THEN conjunct2, THEN conjunct2, THEN conjunct1] c
    by (rule mp)
  have r4: "resolve_proto [] 993 = []"
    using resolve_proto_order [of 993 "[]", THEN conjunct2, THEN conjunct2, THEN conjunct2] d
    by (rule mp)
  show ?thesis using r1 r2 r3 r4 by (intro conjI)
qed

section \<open>Ports without a handler\<close>

lemma protocolHandlers_empty: "protocolHandlers [] = None"
  by (simp add: protocolHandlers_def)

text \<open>
  Claim C10. For a port that is neither a web port (443, 8443, 4433, 5001, 10443) nor an
  SMTP port (25, 465, 587), and an empty protocol argument, the task of the port resolves
  the empty protocol, finds no handler for it in \<open>protocolHandlers\<close>, and ends after
  one line in the error log: it calls no handler, dials nothing, posts nothing to the
  sink and gives no result, whatever the surroundings are.
\<close>

theorem unclassified_port_not_scanned:
  "port \<notin> {443, 8443, 4433, 5001, 10443} \<Longrightarrow> port \<notin> {25, 465, 587} \<Longrightarrow>
   resolve_proto [] port = [] \<and>
   protocolHandlers (resolve_proto [] port) = None \<and>
   port_task w ip hostname [] port =
     ([ErrorLog ''No handler for protocol %s, falling back to default TLS scan''], Return ()) \<and>
   (\<forall>e \<in> set (fst (port_task w ip hostname [] port)). \<not> network_io e)"
proof -
  assume a: "port \<notin> {443, 8443, 4433, 5001, 10443}" and b: "port \<notin> {25, 465, 587}"
  have r: "resolve_proto [] port = []"
    using a b by (simp add: resolve_proto_def webPorts_def smtpPorts_def)
  have t: "port_task w ip hostname [] port =
      ([ErrorLog ''No handler for protocol %s, falling back to default TLS scan''], Return ())"
    by (simp add: port_task_def r protocolHandlers_empty)
  show ?thesis
    unfolding t r by (simp add: protocolHandlers_empty)
qed

theorem unclassified_port_not_scanned_witness:
  "port_task example_world ''192.0.2.10'' ''mail.example.com'' [] 993 =
     ([ErrorLog ''No handler for protocol %s, falling back to default TLS scan''], Return ()) \<and>
   port_task example_world ''192.0.2.10'' ''mail.example.com'' [] 995 =
     ([ErrorLog ''No handler for protocol %s, falling back to default TLS scan''], Return ())"
proof -
  have a: "(993::int) \<notin> {443, 8443, 4433, 5001, 10443}" and b: "(993::int) \<notin> {25, 465, 587}"
    by simp_all
  have c: "(995::int) \<notin> {443, 8443, 4433, 5001, 10443}" and d: "(995::int) \<notin> {25, 465, 587}"
    by simp_all
  show ?thesis
    using unclassified_port_not_scanned [OF a b, of example_world "''192.0.2.10''" "''mail.example.com''"]
      unclassified_port_not_scanned [OF c d, of example_world "''192.0.2.10''" "''mail.example.com''"]
    by blast
qed

section \<open>Sink statuses\<close>

text \<open>
  Claim C9. When the webhook answers with a status outside 200..299: if the status is 403
  and no token is configured, \<open>sendToWebhook\<close> posts the batch once, logs the status
  and the invalid token, prints the four lines of guidance (that no token was provided,
  that the system can be registered, the \<open>curl\<close> command to do so, and that the command
  generates a token to add to the configuration) and ends the process with exit code 1;
  if the status is 403 and a token is configured, it posts once, logs the two errors and
  returns; for any other status it posts once, logs the status and returns. Nothing is
  posted a second time, so the batch is dropped, and the process ends exactly in the
  first case.
\<close>

theorem sendToWebhook_status:
  "Webhook sink (make_payload sink results) = Response status \<Longrightarrow>
   status < 200 \<or> 300 \<le> status \<Longrightarrow>
   (status = 403 \<and> Token cfg = [] \<longrightarrow>
      sendToWebhook cfg sink results url =
        ([Post url (webhookTimeout cfg) (request_headers cfg sink) (make_payload sink results),
          ErrorLog ''Webhook returned status: %d'',
          ErrorLog ''Invalid or missing token for webhook %s'',
          Println ([CHR 0x0A, CHR 0x0A] @ ''No token provided.''),
          Println (''You can register your system in seconds with the following command:''
                   @ [CHR 0x0A]),
          Println ''  curl -sSf https://cd.ultrapki.com/sh | sh'',
          Println ([CHR 0x0A] @
                   ''This will generate a token for your system and show you how to add it to your config.''
                   @ [CHR 0x0A])],
         OsExit 1))
   \<and> (status = 403 \<and> Token cfg \<noteq> [] \<longrightarrow>
      sendToWebhook cfg sink results url =
        ([Post url (webhookTimeout cfg) (request_headers cfg sink) (make_payload sink results),
          ErrorLog ''Webhook returned status: %d'',
          ErrorLog ''Invalid or missing token for webhook %s''],
         Return ()))
   \<and> (status \<noteq> 403 \<longrightarrow>
      sendToWebhook cfg sink results url =
        ([Post url (webhookTimeout cfg) (request_headers cfg sink) (make_payload sink results),
          ErrorLog ''Webhook returned status: %d''],
         Return ()))
   \<and> (snd (sendToWebhook cfg sink results url) = OsExit 1 \<longleftrightarrow> status = 403 \<and> Token cfg = [])
   \<and> (snd (sendToWebhook cfg sink results url) = Return () \<longleftrightarrow> \<not> (status = 403 \<and> Token cfg = []))
   \<and> posted (fst (sendToWebhook cfg sink results url)) = [results]"
  by (auto simp add: sendToWebhook_def Let_def StatusForbidden_def guidance_def NL_def
      make_payload_def)

theorem sendToWebhook_status_witness:
  "sendToWebhook (example_config [] 4 []) (sink_answering 403) [] ''u'' =
     ([Post ''u'' 5000 [(''Content-Type'', ''application/json'')]
         \<lparr>PrimaryIP = ''192.0.2.7'', MachineID = ''agent-1'', ScanResults = []\<rparr>,
       ErrorLog ''Webhook returned status: %d'',
       ErrorLog ''Invalid or missing token for webhook %s'',
       Println ([CHR 0x0A, CHR 0x0A] @ ''No token provided.''),
       Println (''You can register your system in seconds with the following command:''
                @ [CHR 0x0A]),
       Println ''  curl -sSf https://cd.ultrapki.com/sh | sh'',
       Println ([CHR 0x0A] @
                ''This will generate a token for your system and show you how to add it to your config.''
                @ [CHR 0x0A])],
      OsExit 1)
   \<and> sendToWebhook (example_config ''secret'' 4 []) (sink_answering 403) [] ''u'' =
     ([Post ''u'' 5000
         [(''Content-Type'', ''application/json''), (''Authorization'', ''Bearer secret''),
          (''x-ultrapki-machine-id'', ''agent-1'')]
         \<lparr>PrimaryIP = ''192.0.2.7'', MachineID = ''agent-1'', ScanResults = []\<rparr>,
       ErrorLog ''Webhook returned status: %d'',
       ErrorLog ''Invalid or missing token for webhook %s''],
      Return ())
   \<and> sendToWebhook (example_config [] 4 []) (sink_answering 500) [] ''u'' =
     ([Post ''u'' 5000 [(''Content-Type'', ''application/json'')]
         \<lparr>PrimaryIP = ''192.0.2.7'', MachineID = ''agent-1'', ScanResults = []\<rparr>,
       ErrorLog ''Webhook returned status: %d''],
      Return ())"
proof -
  have a: "Webhook (sink_answering 403) (make_payload (sink_answering 403) []) = Response 403"
    by (simp add: sink_answering_def)
  have b: "Webhook (sink_answering 500) (make_payload (sink_answering 500) []) = Response 500"
    by (simp add: sink_answering_def)
  have a': "(403::int) < 200 \<or> 300 \<le> (403::int)" and b': "(500::int) < 200 \<or> 300 \<le> (500::int)"
    by simp_all
  have t0: "Token (example_config [] 4 []) = []" by (simp add: example_config_def)
  have t1: "Token (example_config ''secret'' 4 []) \<noteq> []" by (simp add: example_config_def)
  have v0: "webhookTimeout (example_config [] 4 []) = 5000"
    and v1: "webhookTimeout (example_config ''secret'' 4 []) = 5000"
    by (simp_all add: webhookTimeout_def example_config_def)
  have h0: "request_headers (example_config [] 4 []) (sink_answering 403) =
      [(''Content-Type'', ''application/json'')]"
    and h0': "request_headers (example_config [] 4 []) (sink_answering 500) =
      [(''Content-Type'', ''application/json'')]"
    and h1: "request_headers (example_config ''secret'' 4 []) (sink_answering 403) =
      [(''Content-Type'', ''application/json''), (''Authorization'', ''Bearer secret''),
       (''x-ultrapki-machine-id'', ''agent-1'')]"
    by (simp_all add: request_headers_def example_config_def sink_answering_def)
  have p0: "make_payload (sink_answering 403) [] =
      \<lparr>PrimaryIP = ''192.0.2.7'', MachineID = ''agent-1'', ScanResults = []\<rparr>"
    and p1: "make_payload (sink_answering 500) [] =
      \<lparr>PrimaryIP = ''192.0.2.7'', MachineID = ''agent-1'', ScanResults = []\<rparr>"
    by (simp_all add: make_payload_def sink_answering_def)
  note r1 = sendToWebhook_status [OF a a', of "example_config [] 4 []" "''u''",
      THEN conjunct1, THEN mp, OF conjI [OF refl t0]]
  note r2 = sendToWebhook_status [OF a a', of "example_config ''secret'' 4 []" "''u''",
      THEN conjunct2, THEN conjunct1, THEN mp, OF conjI [OF refl t1]]
  have n: "(500::int) \<noteq> 403" by simp
  note r3 = sendToWebhook_status [OF b b', of "example_config [] 4 []" "''u''",
      THEN conjunct2, THEN conjunct2, THEN conjunct1, THEN mp, OF n]
  show ?thesis
    using r1 [unfolded v0 h0 p0] r2 [unfolded v1 h1 p0] r3 [unfolded v0 h0' p1]
    by (intro conjI)
qed

section \<open>Base64 decodes what it encodes\<close>

lemma sextets:
  "list_all (\<lambda>n. dec_char (enc_char n) = Some n \<and> enc_char n \<noteq> CHR ''=''
    \<and> enc_char n \<noteq> CHR 0x0D \<and> enc_char n \<noteq> CHR 0x0A) [0..<64]"
  by code_simp

lemma sextet:
  "n < 64 \<Longrightarrow> dec_char (enc_char n) = Some n \<and> enc_char n \<noteq> CHR ''=''
    \<and> enc_char n \<noteq> CHR 0x0D \<and> enc_char n \<noteq> CHR 0x0A"
  using sextets unfolding list_all_iff by simp


lemma split16: "q < 16 \<Longrightarrow> (m * 16 + q) div 16 = (m::nat) \<and> (m * 16 + q) mod 16 = q"
  by simp

lemma split4: "q < 4 \<Longrightarrow> (m * 4 + q) div 4 = (m::nat) \<and> (m * 4 + q) mod 4 = q"
  by simp

lemma byte_parts:
  "(of_char c :: nat) div 4 < 64 \<and> (of_char c :: nat) div 16 < 16 \<and> (of_char c :: nat) div 64 < 4"
proof -
  have "(of_char c :: nat) < 256" by simp
  then show ?thesis by (simp add: less_mult_imp_div_less)
qed

lemma sextet_bounds:
  "(of_char a :: nat) div 4 < 64"
  "(of_char a mod 4) * 16 + (of_char b :: nat) div 16 < 64"
  "(of_char a mod 4) * 16 < (64::nat)"
  "(of_char b mod 16) * 4 + (of_char c :: nat) div 64 < 64"
  "(of_char b mod 16) * 4 < (64::nat)"
  "(of_char c :: nat) mod 64 < 64"
proof -
  have m4: "(of_char a :: nat) mod 4 < 4" and m16: "(of_char b :: nat) mod 16 < 16" by simp_all
  show "(of_char a :: nat) div 4 < 64" using byte_parts by blast
  show "(of_char a mod 4) * 16 + (of_char b :: nat) div 16 < 64"
    using m4 byte_parts [of b] by linarith
  show "(of_char a mod 4) * 16 < (64::nat)" using m4 by linarith
  show "(of_char b mod 16) * 4 + (of_char c :: nat) div 64 < 64"
    using m16 byte_parts [of c] by linarith
  show "(of_char b mod 16) * 4 < (64::nat)" using m16 by linarith
  show "(of_char c :: nat) mod 64 < 64" by simp
qed

lemma byte1:
  "char_of ((of_char a :: nat) div 4 * 4 + ((of_char a mod 4) * 16 + (of_char b :: nat) div 16) div 16) = a"
proof -
  have "((of_char a mod 4) * 16 + (of_char b :: nat) div 16) div 16 = of_char a mod 4"
    using split16 [of "of_char b div 16" "of_char a mod 4"] byte_parts [of b] by blast
  then show ?thesis by simp
qed

lemma byte1_final: "char_of ((of_char a :: nat) div 4 * 4 + ((of_char a mod 4) * 16) div 16) = a"
  by simp

lemma byte2:
  "char_of ((((of_char a :: nat) mod 4) * 16 + (of_char b :: nat) div 16) mod 16 * 16 +
     ((of_char b mod 16) * 4 + (of_char c :: nat) div 64) div 4) = b"
proof -
  have "(((of_char a :: nat) mod 4) * 16 + (of_char b :: nat) div 16) mod 16 = of_char b div 16"
    using split16 [of "of_char b div 16" "of_char a mod 4"] byte_parts [of b] by blast
  moreover have "((of_char b mod 16) * 4 + (of_char c :: nat) div 64) div 4 = of_char b mod 16"
    using split4 [of "of_char c div 64" "of_char b mod 16"] byte_parts [of c] by blast
  ultimately show ?thesis by simp
qed

lemma byte2_final:
  "char_of ((((of_char a :: nat) mod 4) * 16 + (of_char b :: nat) div 16) mod 16 * 16 +
     ((of_char b mod 16) * 4) div 4) = b"
proof -
  have "(((of_char a :: nat) mod 4) * 16 + (of_char b :: nat) div 16) mod 16 = of_char b div 16"
    using split16 [of "of_char b div 16" "of_char a mod 4"] byte_parts [of b] by blast
  then show ?thesis by simp
qed

lemma byte3:
  "char_of ((((of_char b :: nat) mod 16) * 4 + (of_char c :: nat) div 64) mod 4 * 64 +
     of_char c mod 64) = c"
proof -
  have "(((of_char b :: nat) mod 16) * 4 + (of_char c :: nat) div 64) mod 4 = of_char c div 64"
    using split4 [of "of_char c div 64" "of_char b mod 16"] byte_parts [of c] by blast
  then show ?thesis by simp
qed

lemma decode_quad_sextets:
  "n1 < 64 \<Longrightarrow> n2 < 64 \<Longrightarrow> n3 < 64 \<Longrightarrow> n4 < 64 \<Longrightarrow>
   decode_quad (enc_char n1) (enc_char n2) (enc_char n3) (enc_char n4) =
     Some [char_of (n1 * 4 + n2 div 16), char_of ((n2 mod 16) * 16 + n3 div 4),
           char_of ((n3 mod 4) * 64 + n4)]"
  using sextet [of n1] sextet [of n2] sextet [of n3] sextet [of n4]
  by (simp only: decode_quad_def prod.case option.case)

lemma decode_last_sextets:
  "n1 < 64 \<Longrightarrow> n2 < 64 \<Longrightarrow>
   decode_last (enc_char n1) (enc_char n2) (CHR ''='') (CHR ''='') =
     Some [char_of (n1 * 4 + n2 div 16)]"
  "n1 < 64 \<Longrightarrow> n2 < 64 \<Longrightarrow> n3 < 64 \<Longrightarrow>
   decode_last (enc_char n1) (enc_char n2) (enc_char n3) (CHR ''='') =
     Some [char_of (n1 * 4 + n2 div 16), char_of ((n2 mod 16) * 16 + n3 div 4)]"
  "n4 < 64 \<Longrightarrow>
   decode_last w x y (enc_char n4) = decode_quad w x y (enc_char n4)"
proof -
  show "decode_last (enc_char n1) (enc_char n2) (CHR ''='') (CHR ''='') =
     Some [char_of (n1 * 4 + n2 div 16)]" if "n1 < 64" "n2 < 64"
    using sextet [OF that(1)] sextet [OF that(2)]
    by (simp only: decode_last_def prod.case option.case simp_thms if_True)
  show "decode_last (enc_char n1) (enc_char n2) (enc_char n3) (CHR ''='') =
     Some [char_of (n1 * 4 + n2 div 16), char_of ((n2 mod 16) * 16 + n3 div 4)]"
    if "n1 < 64" "n2 < 64" "n3 < 64"
    using sextet [OF that(1)] sextet [OF that(2)] sextet [OF that(3)]
    by (simp only: decode_last_def prod.case option.case simp_thms if_True if_False)
  show "decode_last w x y (enc_char n4) = decode_quad w x y (enc_char n4)" if "n4 < 64"
    using sextet [OF that]
    by (simp only: decode_last_def simp_thms if_False)
qed

lemma decode_quad_encoded:
  "decode_quad (enc_char (of_char a div 4)) (enc_char ((of_char a mod 4) * 16 + of_char b div 16))
     (enc_char ((of_char b mod 16) * 4 + of_char c div 64)) (enc_char (of_char c mod 64))
   = Some [a, b, c]"
proof -
  let ?A = "of_char a :: nat" and ?B = "of_char b :: nat" and ?C = "of_char c :: nat"
  have "decode_quad (enc_char (?A div 4)) (enc_char ((?A mod 4) * 16 + ?B div 16))
      (enc_char ((?B mod 16) * 4 + ?C div 64)) (enc_char (?C mod 64)) =
    Some [char_of (?A div 4 * 4 + ((?A mod 4) * 16 + ?B div 16) div 16),
          char_of (((?A mod 4) * 16 + ?B div 16) mod 16 * 16 + ((?B mod 16) * 4 + ?C div 64) div 4),
          char_of (((?B mod 16) * 4 + ?C div 64) mod 4 * 64 + ?C mod 64)]"
    by (rule decode_quad_sextets) (rule sextet_bounds)+
  then show ?thesis by (simp only: byte1 byte2 byte3)
qed

lemma base64_encode_Nil_iff: "base64_encode bs = [] \<longleftrightarrow> bs = []"
  by (induction bs rule: base64_encode.induct) simp_all

lemma base64_decode_encode: "base64_decode (base64_encode bs) = Some bs"
proof (induction bs rule: base64_encode.induct)
  case 1
  then show ?case by simp
next
  case (2 a)
  let ?A = "of_char a :: nat"
  have "decode_last (enc_char (?A div 4)) (enc_char ((?A mod 4) * 16)) (CHR ''='') (CHR ''='') =
    Some [char_of (?A div 4 * 4 + ((?A mod 4) * 16) div 16)]"
    by (rule decode_last_sextets(1)) (rule sextet_bounds)+
  then have "decode_last (enc_char (?A div 4)) (enc_char ((?A mod 4) * 16))
      (CHR ''='') (CHR ''='') = Some [a]"
    by (simp only: byte1_final)
  then show ?case
    by (simp only: base64_encode.simps base64_decode.simps simp_thms if_True)
next
  case (3 a b)
  let ?A = "of_char a :: nat" and ?B = "of_char b :: nat"
  have "decode_last (enc_char (?A div 4)) (enc_char ((?A mod 4) * 16 + ?B div 16))
      (enc_char ((?B mod 16) * 4)) (CHR ''='') =
    Some [char_of (?A div 4 * 4 + ((?A mod 4) * 16 + ?B div 16) div 16),
          char_of (((?A mod 4) * 16 + ?B div 16) mod 16 * 16 + ((?B mod 16) * 4) div 4)]"
    by (rule decode_last_sextets(2)) (rule sextet_bounds)+
  then have "decode_last (enc_char (?A div 4)) (enc_char ((?A mod 4) * 16 + ?B div 16))
      (enc_char ((?B mod 16) * 4)) (CHR ''='') = Some [a, b]"
    by (simp only: byte1 byte2_final)
  then show ?case
    by (simp only: base64_encode.simps base64_decode.simps simp_thms if_True)
next
  case (4 a b c rest)
  let ?w = "enc_char (of_char a div 4)"
  let ?x = "enc_char ((of_char a mod 4) * 16 + of_char b div 16)"
  let ?y = "enc_char ((of_char b mod 16) * 4 + of_char c div 64)"
  let ?z = "enc_char (of_char c mod 64)"
  have e: "base64_encode (a # b # c # rest) = ?w # ?x # ?y # ?z # base64_encode rest"
    by (simp only: base64_encode.simps append_Cons append_Nil)
  have q: "decode_quad ?w ?x ?y ?z = Some [a, b, c]" by (rule decode_quad_encoded)
  show ?case
  proof (cases "rest = []")
    case True
    have l: "decode_last ?w ?x ?y ?z = decode_quad ?w ?x ?y ?z"
      by (rule decode_last_sextets(3)) (rule sextet_bounds)
    have e': "base64_encode (a # b # c # rest) = [?w, ?x, ?y, ?z]"
      using True by (simp only: base64_encode.simps append_Nil2)
    have "base64_decode [?w, ?x, ?y, ?z] = decode_last ?w ?x ?y ?z"
      by (simp only: base64_decode.simps simp_thms if_True)
    then have "base64_decode [?w, ?x, ?y, ?z] = Some [a, b, c]"
      by (simp only: l q)
    then have "base64_decode (base64_encode (a # b # c # rest)) = Some [a, b, c]"
      by (simp only: e')
    then show ?thesis
      using True by simp
  next
    case False
    then have n: "base64_encode rest \<noteq> []" by (simp add: base64_encode_Nil_iff)
    show ?thesis
      using n q "4.IH"
      by (simp only: e base64_decode.simps if_False option.case append_Cons append_Nil)
  qed
qed

lemma base64_encode_no_newline:
  "c \<in> set (base64_encode bs) \<Longrightarrow> c \<noteq> CHR 0x0D \<and> c \<noteq> CHR 0x0A"
proof (induction bs rule: base64_encode.induct)
  case 1
  then show ?case by simp
next
  case (2 a)
  then show ?case
    using sextet [OF sextet_bounds(1) [of a]] sextet [OF sextet_bounds(3) [of a]] by auto
next
  case (3 a b)
  then show ?case
    using sextet [OF sextet_bounds(1) [of a]] sextet [OF sextet_bounds(2) [of a b]]
      sextet [OF sextet_bounds(5) [of b]] by auto
next
  case (4 a b c rest)
  then show ?case
    using sextet [OF sextet_bounds(1) [of a]] sextet [OF sextet_bounds(2) [of a b]]
      sextet [OF sextet_bounds(4) [of b c]] sextet [OF sextet_bounds(6) [of c]] by auto
qed

lemma base64_roundtrip: "base64_DecodeString (base64_encode bs) = Some bs"
proof -
  have "filter (\<lambda>c. c \<noteq> CHR 0x0D \<and> c \<noteq> CHR 0x0A) (base64_encode bs) = base64_encode bs"
    using base64_encode_no_newline [of _ bs] by (simp add: filter_id_conv)
  then show ?thesis by (simp add: base64_DecodeString_def base64_decode_encode)
qed

lemma base64_vectors:
  "base64_encode ''f'' = ''Zg=='' \<and> base64_encode ''fo'' = ''Zm8='' \<and>
   base64_encode ''foo'' = ''Zm9v'' \<and> base64_encode ''foobar'' = ''Zm9vYmFy'' \<and>
   base64_DecodeString ''Zm9vYg=='' = Some ''foob''"
  by code_simp



section \<open>Filter\<close>

lemma filterCerts_map_filter:
  "filterCerts lib x R = map (EncodeToString lib) (filter (survives lib R) x)"
  by (induction x) (auto simp: survives_def split: option.splits)

lemma decodeBase64Certs_encoded:
  "\<forall>der \<in> set ys. DecodeString lib (EncodeToString lib der) = Some der \<Longrightarrow>
   decodeBase64Certs lib (map (EncodeToString lib) ys) = ys"
  by (induction ys) auto

text \<open>
  Claim C6. The exclusion filter is idempotent: for every list of certificate byte
  strings and every rule set, decoding the output of the filter and filtering it again
  with the same rules gives the same output. The base64 encoding of the Go library enters
  through the one fact that decoding an encoded byte string gives it back, which is
  asked of the certificates at hand.
\<close>

theorem filterCerts_idempotent:
  "\<forall>der \<in> set x. DecodeString lib (EncodeToString lib der) = Some der \<Longrightarrow>
   filterCerts lib (decodeBase64Certs lib (filterCerts lib x R)) R = filterCerts lib x R"
proof -
  assume rt: "\<forall>der \<in> set x. DecodeString lib (EncodeToString lib der) = Some der"
  let ?ys = "filter (survives lib R) x"
  have "\<forall>der \<in> set ?ys. DecodeString lib (EncodeToString lib der) = Some der"
    using rt by simp
  then have d: "decodeBase64Certs lib (map (EncodeToString lib) ?ys) = ?ys"
    by (rule decodeBase64Certs_encoded)
  have "filterCerts lib (decodeBase64Certs lib (filterCerts lib x R)) R =
        filterCerts lib ?ys R"
    by (simp only: filterCerts_map_filter [of lib x R] d)
  also have "\<dots> = map (EncodeToString lib) (filter (survives lib R) ?ys)"
    by (rule filterCerts_map_filter)
  also have "\<dots> = map (EncodeToString lib) ?ys" by simp
  also have "\<dots> = filterCerts lib x R" by (simp only: filterCerts_map_filter)
  finally show ?thesis .
qed

theorem filterCerts_idempotent_witness:
  "filterCerts sample_lib
     (decodeBase64Certs sample_lib
        (filterCerts sample_lib [''CN=Evil CA|mail'', ''CN=Good CA|www'', ''junk'']
           [\<lparr>Issuer = ''*Evil*'', CN = []\<rparr>]))
     [\<lparr>Issuer = ''*Evil*'', CN = []\<rparr>]
   = filterCerts sample_lib [''CN=Evil CA|mail'', ''CN=Good CA|www'', ''junk'']
       [\<lparr>Issuer = ''*Evil*'', CN = []\<rparr>]"
proof -
  have "\<forall>der \<in> set [''CN=Evil CA|mail'', ''CN=Good CA|www'', ''junk''].
          DecodeString sample_lib (EncodeToString sample_lib der) = Some der"
    by (simp add: sample_lib_def base64_roundtrip)
  then show ?thesis by (rule filterCerts_idempotent)
qed



section \<open>Traces of the web handler\<close>

lemma attempts_append: "attempts (a @ b) = attempts a @ attempts b"
  by (induction a rule: attempts.induct) simp_all

lemma posted_append: "posted (a @ b) = posted a @ posted b"
  by (induction a rule: posted.induct) simp_all

lemma attempts_guidance: "attempts guidance = []"
  by (simp add: guidance_def)

lemma posted_guidance: "posted guidance = []"
  by (simp add: guidance_def)

lemma attempts_sendToWebhook: "attempts (fst (sendToWebhook cfg sink results url)) = []"
  by (simp add: sendToWebhook_def Let_def attempts_append attempts_guidance
      split: http_outcome.splits)

lemma posted_sendToWebhook:
  "Webhook sink (make_payload sink results) \<noteq> MarshalFails \<Longrightarrow>
   Webhook sink (make_payload sink results) \<noteq> NewRequestFails \<Longrightarrow>
   posted (fst (sendToWebhook cfg sink results url)) = [results]"
  by (simp add: sendToWebhook_def Let_def posted_append posted_guidance make_payload_def
      split: http_outcome.splits)

lemma attempts_probe_family:
  "attempts (snd (probe_family lib net ip hostname port family failure)) = [family]"
  by (simp add: probe_family_def split: sum.splits)

lemma posted_probe_family:
  "posted (snd (probe_family lib net ip hostname port family failure)) = []"
  by (simp add: probe_family_def split: sum.splits)

lemma fst_probe_family:
  "fst (probe_family lib net ip hostname port family failure) =
     (case tlsHandshakeAndCollectWithTimeout lib net ip hostname port family of
        Inr r \<Rightarrow> [r] | Inl e \<Rightarrow> [])"
  by (simp add: probe_family_def split: sum.splits)

lemma defaultTLSHandler_events:
  "fst (defaultTLSHandler lib cfg net sink ip hostname port) =
     snd (probe_family lib net ip hostname port ''ecdsa'' ''ECDSA handshake failed: %v'') @
     snd (probe_family lib net ip hostname port ''rsa'' ''RSA handshake failed: %v'') @
     (let results = map (filter_result lib (ExcludeCerts cfg))
            (fst (probe_family lib net ip hostname port ''ecdsa'' ''ECDSA handshake failed: %v'') @
             fst (probe_family lib net ip hostname port ''rsa'' ''RSA handshake failed: %v''))
      in if results = [] then []
         else fst (sendToWebhook cfg sink results (WebhookURL cfg)))"
  by (simp add: defaultTLSHandler_def Let_def split: prod.splits control.splits)

text \<open>
  Claim C8. In \<open>defaultTLSHandler\<close> the ECDSA probe and the RSA probe are both attempted,
  in this order, whatever either of them gives: the dials of the handler are always the
  two. The results handed to the sink are the results of the families that succeeded, one
  for each, in the same order, with their certificates passed through the exclusion
  filter; nothing is posted when both fail. In particular, when the ECDSA probe fails (at
  the dial, at the preset, at the handshake, or with an empty chain) and the RSA probe
  reads a non-empty chain, exactly the RSA result is posted, and the other way round. The
  webhook is taken to get as far as the request, so that the post shows in the trace.
\<close>

theorem family_independence:
  "attempts (fst (defaultTLSHandler lib cfg net sink ip hostname port)) = [''ecdsa'', ''rsa'']
   \<and> ((\<forall>p. Webhook sink p \<noteq> MarshalFails \<and> Webhook sink p \<noteq> NewRequestFails) \<longrightarrow>
        posted (fst (defaultTLSHandler lib cfg net sink ip hostname port)) =
          (let ok =
                 (case tlsHandshakeAndCollectWithTimeout lib net ip hostname port ''ecdsa'' of
                    Inr r \<Rightarrow> [r] | Inl e \<Rightarrow> []) @
                 (case tlsHandshakeAndCollectWithTimeout lib net ip hostname port ''rsa'' of
                    Inr r \<Rightarrow> [r] | Inl e \<Rightarrow> [])
           in if ok = [] then [] else [map (filter_result lib (ExcludeCerts cfg)) ok]))
   \<and> ((\<forall>p. Webhook sink p \<noteq> MarshalFails \<and> Webhook sink p \<noteq> NewRequestFails) \<and>
        Peer net ip port ''ecdsa'' \<in> {DialFails, PresetFails, HandshakeFails, PeerCertificates []} \<and>
        Peer net ip port ''rsa'' = PeerCertificates chain \<and> chain \<noteq> [] \<longrightarrow>
        posted (fst (defaultTLSHandler lib cfg net sink ip hostname port)) =
          [[filter_result lib (ExcludeCerts cfg)
              \<lparr>IP = ip, Port = port, Hostname = hostname, HandshakeType = ''rsa'',
               Certificates = map (EncodeToString lib) chain, Timestamp = Now net\<rparr>]])
   \<and> ((\<forall>p. Webhook sink p \<noteq> MarshalFails \<and> Webhook sink p \<noteq> NewRequestFails) \<and>
        Peer net ip port ''rsa'' \<in> {DialFails, PresetFails, HandshakeFails, PeerCertificates []} \<and>
        Peer net ip port ''ecdsa'' = PeerCertificates chain \<and> chain \<noteq> [] \<longrightarrow>
        posted (fst (defaultTLSHandler lib cfg net sink ip hostname port)) =
          [[filter_result lib (ExcludeCerts cfg)
              \<lparr>IP = ip, Port = port, Hostname = hostname, HandshakeType = ''ecdsa'',
               Certificates = map (EncodeToString lib) chain, Timestamp = Now net\<rparr>]])"
proof -
  let ?h = "fst (defaultTLSHandler lib cfg net sink ip hostname port)"
  let ?ok = "(case tlsHandshakeAndCollectWithTimeout lib net ip hostname port ''ecdsa'' of
                Inr r \<Rightarrow> [r] | Inl e \<Rightarrow> []) @
             (case tlsHandshakeAndCollectWithTimeout lib net ip hostname port ''rsa'' of
                Inr r \<Rightarrow> [r] | Inl e \<Rightarrow> [])"
  have a: "attempts ?h = [''ecdsa'', ''rsa'']"
    by (simp add: defaultTLSHandler_events attempts_append attempts_probe_family
        attempts_sendToWebhook Let_def)
  have p: "posted ?h = (if ?ok = [] then [] else [map (filter_result lib (ExcludeCerts cfg)) ?ok])"
    if s: "\<forall>p. Webhook sink p \<noteq> MarshalFails \<and> Webhook sink p \<noteq> NewRequestFails"
  proof -
    have "posted (fst (sendToWebhook cfg sink results (WebhookURL cfg))) = [results]" for results
      using s by (simp add: posted_sendToWebhook)
    then show ?thesis
      by (simp add: defaultTLSHandler_events posted_append posted_probe_family
          fst_probe_family Let_def)
  qed
  have fail: "tlsHandshakeAndCollectWithTimeout lib net ip hostname port f \<in> range Inl"
    if "Peer net ip port f \<in> {DialFails, PresetFails, HandshakeFails, PeerCertificates []}" for f
    using that by (auto simp add: tlsHandshakeAndCollectWithTimeout_def)
  have ok: "tlsHandshakeAndCollectWithTimeout lib net ip hostname port f =
       Inr \<lparr>IP = ip, Port = port, Hostname = hostname, HandshakeType = f,
            Certificates = map (EncodeToString lib) chain, Timestamp = Now net\<rparr>"
    if "Peer net ip port f = PeerCertificates chain" "chain \<noteq> []" for f
    using that by (simp add: tlsHandshakeAndCollectWithTimeout_def)
  have r: "posted ?h =
          [[filter_result lib (ExcludeCerts cfg)
              \<lparr>IP = ip, Port = port, Hostname = hostname, HandshakeType = ''rsa'',
               Certificates = map (EncodeToString lib) chain, Timestamp = Now net\<rparr>]]"
    if s: "\<forall>p. Webhook sink p \<noteq> MarshalFails \<and> Webhook sink p \<noteq> NewRequestFails"
      and e: "Peer net ip port ''ecdsa'' \<in> {DialFails, PresetFails, HandshakeFails, PeerCertificates []}"
      and c: "Peer net ip port ''rsa'' = PeerCertificates chain" "chain \<noteq> []"
  proof -
    obtain err where "tlsHandshakeAndCollectWithTimeout lib net ip hostname port ''ecdsa'' = Inl err"
      using fail [OF e] by auto
    then show ?thesis using p [OF s] ok [OF c] by simp
  qed
  have l: "posted ?h =
          [[filter_result lib (ExcludeCerts cfg)
              \<lparr>IP = ip, Port = port, Hostname = hostname, HandshakeType = ''ecdsa'',
               Certificates = map (EncodeToString lib) chain, Timestamp = Now net\<rparr>]]"
    if s: "\<forall>p. Webhook sink p \<noteq> MarshalFails \<and> Webhook sink p \<noteq> NewRequestFails"
      and e: "Peer net ip port ''rsa'' \<in> {DialFails, PresetFails, HandshakeFails, PeerCertificates []}"
      and c: "Peer net ip port ''ecdsa'' = PeerCertificates chain" "chain \<noteq> []"
  proof -
    obtain err where "tlsHandshakeAndCollectWithTimeout lib net ip hostname port ''rsa'' = Inl err"
      using fail [OF e] by auto
    then show ?thesis using p [OF s] ok [OF c] by simp
  qed
  show ?thesis
    using a p r l by (simp only: Let_def) blast
qed


theorem family_independence_witness:
  "attempts (fst (defaultTLSHandler sample_lib (example_config [] 4 [])
       (example_net HandshakeFails (PeerCertificates [''CN=Good CA|www'']))
       (sink_answering 200) ''93.184.216.34'' ''example.com'' 443)) = [''ecdsa'', ''rsa'']
   \<and> posted (fst (defaultTLSHandler sample_lib (example_config [] 4 [])
       (example_net HandshakeFails (PeerCertificates [''CN=Good CA|www'']))
       (sink_answering 200) ''93.184.216.34'' ''example.com'' 443)) =
     [[\<lparr>IP = ''93.184.216.34'', Port = 443, Hostname = ''example.com'', HandshakeType = ''rsa'',
        Certificates = [base64_encode ''CN=Good CA|www''], Timestamp = 1700000000\<rparr>]]"
proof -
  let ?net = "example_net HandshakeFails (PeerCertificates [''CN=Good CA|www''])"
  have s: "\<forall>p. Webhook (sink_answering 200) p \<noteq> MarshalFails \<and>
               Webhook (sink_answering 200) p \<noteq> NewRequestFails"
    by (simp add: sink_answering_def)
  have e: "Peer ?net ''93.184.216.34'' 443 ''ecdsa'' \<in>
             {DialFails, PresetFails, HandshakeFails, PeerCertificates []}"
    by (simp add: example_net_def)
  have r: "Peer ?net ''93.184.216.34'' 443 ''rsa'' = PeerCertificates [''CN=Good CA|www'']"
    by (simp add: example_net_def)
  have n: "[''CN=Good CA|www''] \<noteq> []" by simp
  have f: "filter_result sample_lib (ExcludeCerts (example_config [] 4 []))
             \<lparr>IP = ''93.184.216.34'', Port = 443, Hostname = ''example.com'',
              HandshakeType = ''rsa'',
              Certificates = map (EncodeToString sample_lib) [''CN=Good CA|www''],
              Timestamp = Now ?net\<rparr> =
           \<lparr>IP = ''93.184.216.34'', Port = 443, Hostname = ''example.com'', HandshakeType = ''rsa'',
            Certificates = [base64_encode ''CN=Good CA|www''], Timestamp = 1700000000\<rparr>"
    by code_simp
  note t = family_independence [of sample_lib "example_config [] 4 []" ?net "sink_answering 200"
      "''93.184.216.34''" "''example.com''" 443 "[''CN=Good CA|www'']"]
  have c1: "attempts (fst (defaultTLSHandler sample_lib (example_config [] 4 []) ?net
       (sink_answering 200) ''93.184.216.34'' ''example.com'' 443)) = [''ecdsa'', ''rsa'']"
    using t by (rule conjunct1)
  have c3: "posted (fst (defaultTLSHandler sample_lib (example_config [] 4 []) ?net
       (sink_answering 200) ''93.184.216.34'' ''example.com'' 443)) =
          [[filter_result sample_lib (ExcludeCerts (example_config [] 4 []))
              \<lparr>IP = ''93.184.216.34'', Port = 443, Hostname = ''example.com'',
               HandshakeType = ''rsa'',
               Certificates = map (EncodeToString sample_lib) [''CN=Good CA|www''],
               Timestamp = Now ?net\<rparr>]]"
    using t [THEN conjunct2, THEN conjunct2, THEN conjunct1] s e r n by blast
  show ?thesis using c1 c3 by (simp only: f) 
qed

text \<open>
  Claim C2 has a result whose certificates are all excluded dropped. With the rule
  \<open>{issuer: *Evil*}\<close>, a failing ECDSA probe and an RSA probe that reads one certificate
  issued by \<open>CN=Evil CA\<close>, the handler posts one result with an empty certificate list:
  it tests \<open>len(results) > 0\<close> after the filter, not the certificates of each result.
\<close>

theorem excluded_result_still_forwarded:
  "posted (fst (defaultTLSHandler sample_lib (example_config [] 4 [\<lparr>Issuer = ''*Evil*'', CN = []\<rparr>])
       (example_net HandshakeFails (PeerCertificates [''CN=Evil CA|mail'']))
       (sink_answering 200) ''93.184.216.34'' ''example.com'' 443)) =
     [[\<lparr>IP = ''93.184.216.34'', Port = 443, Hostname = ''example.com'', HandshakeType = ''rsa'',
        Certificates = [], Timestamp = 1700000000\<rparr>]]"
  by code_simp



section \<open>The STARTTLS upgrader\<close>

lemma supportsStartTLS_iff:
  "supportsStartTLS lib lines \<longleftrightarrow> (\<exists>l \<in> set lines. sublist ''STARTTLS'' (ToUpper lib l))"
  by (induction lines) (auto simp: Contains_iff_sublist)

lemma read_ehlo_split:
  "read_ehlo incoming acc = Some (lines, rest) \<Longrightarrow>
   acc @ incoming = lines @ rest \<and> lines \<noteq> [] \<and> \<not> HasPrefix (last lines) ''250-''"
proof (induction incoming acc rule: read_ehlo.induct)
  case (1 lines)
  then show ?case by simp
next
  case (2 line rest' acc)
  show ?case
  proof (cases "HasPrefix line ''250-''")
    case False
    with "2.prems" show ?thesis by auto
  next
    case True
    with "2.prems" have r: "read_ehlo rest' (acc @ [line]) = Some (lines, rest)" by simp
    from "2.IH" [OF _ r] True show ?thesis by auto
  qed
qed

lemma read_ehlo_None_iff:
  "read_ehlo incoming acc = None \<longleftrightarrow> (\<forall>l \<in> set incoming. prefix ''250-'' l)"
  by (induction incoming acc rule: read_ehlo.induct) (auto simp add: HasPrefix_iff_prefix)

lemma commands_distinct: "STARTTLS_command \<noteq> EHLO_command"
  by (simp add: STARTTLS_command_def EHLO_command_def)

text \<open>
  Claim C7. For every peer, that is, for every sequence of reply lines, the attempt goes
  one of these ways. A refused dial and a missing greeting fail before anything is
  written. When every line after the greeting is a continuation line \<open>250-\<close>, the read
  after the last of them fails and the attempt fails with \<open>EHLO read failed\<close> (the
  spec's ProtocolError), whatever the lines contain, having written EHLO only. When the
  reply to EHLO is read to its end and none of its collected lines contains \<open>STARTTLS\<close>
  after upper-casing, the attempt fails with \<open>STARTTLS not supported\<close> (the spec's
  UnsupportedError) and the only command written is EHLO. So \<open>STARTTLS\<close> is written
  only when a collected line contained it; then exactly EHLO and STARTTLS were written,
  and the next reply decides: if it cannot be read or does not begin with \<open>220\<close> the
  attempt fails with \<open>STARTTLS failed\<close> (the spec's ProtocolError), and a result is
  only ever returned after a reply that begins with \<open>220\<close>. A failure is a value without
  any result in it.
\<close>

theorem starttls_gate:
  "(\<not> Accepts peer \<longrightarrow>
      scanSMTPStartTLS lib now peer ip hostname port = (Inl TcpDialFailed, []))
   \<and> (Accepts peer \<and> Replies peer = [] \<longrightarrow>
      scanSMTPStartTLS lib now peer ip hostname port = (Inl SmtpGreetingFailed, []))
   \<and> (Accepts peer \<and> Replies peer = greeting # incoming \<and>
      (\<forall>l \<in> set incoming. prefix ''250-'' l) \<longrightarrow>
        scanSMTPStartTLS lib now peer ip hostname port = (Inl EhloReadFailed, [EHLO_command]))
   \<and> (Accepts peer \<and> Replies peer = greeting # incoming \<and>
      read_ehlo incoming [] = Some (lines, rest) \<and>
      (\<forall>l \<in> set lines. \<not> sublist ''STARTTLS'' (ToUpper lib l)) \<longrightarrow>
        scanSMTPStartTLS lib now peer ip hostname port =
          (Inl StartTLSNotSupported, [EHLO_command]) \<and>
        STARTTLS_command \<notin> set (snd (scanSMTPStartTLS lib now peer ip hostname port)))
   \<and> (STARTTLS_command \<in> set (snd (scanSMTPStartTLS lib now peer ip hostname port)) \<longrightarrow>
        (\<exists>greeting incoming lines rest.
           Accepts peer \<and> Replies peer = greeting # incoming \<and>
           read_ehlo incoming [] = Some (lines, rest) \<and>
           (\<exists>l \<in> set lines. sublist ''STARTTLS'' (ToUpper lib l)) \<and>
           snd (scanSMTPStartTLS lib now peer ip hostname port) = [EHLO_command, STARTTLS_command] \<and>
           (rest = [] \<or> \<not> prefix ''220'' (hd rest) \<longrightarrow>
              fst (scanSMTPStartTLS lib now peer ip hostname port) = Inl StartTLSFailed) \<and>
           (\<forall>r. fst (scanSMTPStartTLS lib now peer ip hostname port) = Inr r \<longrightarrow>
              rest \<noteq> [] \<and> prefix ''220'' (hd rest))))"
proof (intro conjI impI)
  assume "\<not> Accepts peer"
  then show "scanSMTPStartTLS lib now peer ip hostname port = (Inl TcpDialFailed, [])"
    by (simp add: scanSMTPStartTLS_def)
next
  assume "Accepts peer \<and> Replies peer = []"
  then show "scanSMTPStartTLS lib now peer ip hostname port = (Inl SmtpGreetingFailed, [])"
    by (simp add: scanSMTPStartTLS_def)
next
  assume h: "Accepts peer \<and> Replies peer = greeting # incoming \<and>
      (\<forall>l \<in> set incoming. prefix ''250-'' l)"
  then have "read_ehlo incoming [] = None" by (simp add: read_ehlo_None_iff)
  with h show "scanSMTPStartTLS lib now peer ip hostname port =
      (Inl EhloReadFailed, [EHLO_command])"
    by (simp add: scanSMTPStartTLS_def)
next
  assume h: "Accepts peer \<and> Replies peer = greeting # incoming \<and>
      read_ehlo incoming [] = Some (lines, rest) \<and>
      (\<forall>l \<in> set lines. \<not> sublist ''STARTTLS'' (ToUpper lib l))"
  then have n: "\<not> supportsStartTLS lib lines" by (simp add: supportsStartTLS_iff)
  show e: "scanSMTPStartTLS lib now peer ip hostname port =
      (Inl StartTLSNotSupported, [EHLO_command])"
    using h n by (simp add: scanSMTPStartTLS_def)
  show "STARTTLS_command \<notin> set (snd (scanSMTPStartTLS lib now peer ip hostname port))"
    using h n by (simp add: scanSMTPStartTLS_def commands_distinct)
next
  assume w: "STARTTLS_command \<in> set (snd (scanSMTPStartTLS lib now peer ip hostname port))"
  have a: "Accepts peer"
    using w by (auto simp add: scanSMTPStartTLS_def split: if_splits)
  obtain greeting incoming where g: "Replies peer = greeting # incoming"
    using w a by (cases "Replies peer") (auto simp add: scanSMTPStartTLS_def)
  obtain lines rest where e: "read_ehlo incoming [] = Some (lines, rest)"
    using w a g by (cases "read_ehlo incoming []")
      (auto simp add: scanSMTPStartTLS_def commands_distinct)
  have s: "supportsStartTLS lib lines"
    using w a g e by (auto simp add: scanSMTPStartTLS_def commands_distinct split: if_splits)
  have wr: "snd (scanSMTPStartTLS lib now peer ip hostname port) = [EHLO_command, STARTTLS_command]"
    using a g e s
    by (auto simp add: scanSMTPStartTLS_def split: list.splits option.splits)
  have f: "fst (scanSMTPStartTLS lib now peer ip hostname port) = Inl StartTLSFailed"
    if "rest = [] \<or> \<not> prefix ''220'' (hd rest)"
    using that a g e s
    by (auto simp add: scanSMTPStartTLS_def HasPrefix_iff_prefix split: list.splits)
  have r: "rest \<noteq> [] \<and> prefix ''220'' (hd rest)"
    if "fst (scanSMTPStartTLS lib now peer ip hostname port) = Inr r" for r
    using that f by fastforce
  show "\<exists>greeting incoming lines rest.
           Accepts peer \<and> Replies peer = greeting # incoming \<and>
           read_ehlo incoming [] = Some (lines, rest) \<and>
           (\<exists>l \<in> set lines. sublist ''STARTTLS'' (ToUpper lib l)) \<and>
           snd (scanSMTPStartTLS lib now peer ip hostname port) = [EHLO_command, STARTTLS_command] \<and>
           (rest = [] \<or> \<not> prefix ''220'' (hd rest) \<longrightarrow>
              fst (scanSMTPStartTLS lib now peer ip hostname port) = Inl StartTLSFailed) \<and>
           (\<forall>r. fst (scanSMTPStartTLS lib now peer ip hostname port) = Inr r \<longrightarrow>
              rest \<noteq> [] \<and> prefix ''220'' (hd rest))"
    using a g e s wr f r unfolding supportsStartTLS_iff by blast
qed

theorem starttls_gate_witness:
  "scanSMTPStartTLS sample_lib 1700000000
     (smtp_example [''220 mx ESMTP'' @ CRLF, ''250-mx'' @ CRLF, ''250-SIZE 1000'' @ CRLF,
        ''250 OK'' @ CRLF, ''220 Ready'' @ CRLF])
     ''192.0.2.25'' ''mx.example.com'' 587 = (Inl StartTLSNotSupported, [EHLO_command])
   \<and> fst (scanSMTPStartTLS sample_lib 1700000000
     (smtp_example [''220 mx ESMTP'' @ CRLF, ''250-mx'' @ CRLF, ''250-starttls'' @ CRLF,
        ''250 OK'' @ CRLF, ''454 TLS not available'' @ CRLF])
     ''192.0.2.25'' ''mx.example.com'' 587) = Inl StartTLSFailed
   \<and> scanSMTPStartTLS sample_lib 1700000000
     (smtp_example [''220 mx ESMTP'' @ CRLF, ''250-mx'' @ CRLF, ''250-STARTTLS'' @ CRLF])
     ''192.0.2.25'' ''mx.example.com'' 587 = (Inl EhloReadFailed, [EHLO_command])"
proof -
  let ?p1 = "smtp_example [''220 mx ESMTP'' @ CRLF, ''250-mx'' @ CRLF, ''250-SIZE 1000'' @ CRLF,
        ''250 OK'' @ CRLF, ''220 Ready'' @ CRLF]"
  let ?p2 = "smtp_example [''220 mx ESMTP'' @ CRLF, ''250-mx'' @ CRLF, ''250-starttls'' @ CRLF,
        ''250 OK'' @ CRLF, ''454 TLS not available'' @ CRLF]"
  let ?p3 = "smtp_example [''220 mx ESMTP'' @ CRLF, ''250-mx'' @ CRLF, ''250-STARTTLS'' @ CRLF]"
  have a1: "Accepts ?p1" by (simp add: smtp_example_def)
  have g1: "Replies ?p1 = (''220 mx ESMTP'' @ CRLF) #
      [''250-mx'' @ CRLF, ''250-SIZE 1000'' @ CRLF, ''250 OK'' @ CRLF, ''220 Ready'' @ CRLF]"
    by (simp add: smtp_example_def)
  have e1: "read_ehlo [''250-mx'' @ CRLF, ''250-SIZE 1000'' @ CRLF, ''250 OK'' @ CRLF,
        ''220 Ready'' @ CRLF] [] =
      Some ([''250-mx'' @ CRLF, ''250-SIZE 1000'' @ CRLF, ''250 OK'' @ CRLF], [''220 Ready'' @ CRLF])"
    by code_simp
  have n1: "\<forall>l \<in> set [''250-mx'' @ CRLF, ''250-SIZE 1000'' @ CRLF, ''250 OK'' @ CRLF].
      \<not> sublist ''STARTTLS'' (ToUpper sample_lib l)"
    by code_simp
  have r1: "scanSMTPStartTLS sample_lib 1700000000 ?p1 ''192.0.2.25'' ''mx.example.com'' 587 =
      (Inl StartTLSNotSupported, [EHLO_command])"
    using starttls_gate [where peer = ?p1 and greeting = "''220 mx ESMTP'' @ CRLF"
        and incoming = "[''250-mx'' @ CRLF, ''250-SIZE 1000'' @ CRLF, ''250 OK'' @ CRLF,
          ''220 Ready'' @ CRLF]"
        and lines = "[''250-mx'' @ CRLF, ''250-SIZE 1000'' @ CRLF, ''250 OK'' @ CRLF]"
        and rest = "[''220 Ready'' @ CRLF]"
        and lib = sample_lib and now = 1700000000 and ip = "''192.0.2.25''"
        and hostname = "''mx.example.com''" and port = 587,
        THEN conjunct2, THEN conjunct2, THEN conjunct2, THEN conjunct1]
      a1 g1 e1 n1 by blast
  have w2: "STARTTLS_command \<in> set (snd (scanSMTPStartTLS sample_lib 1700000000 ?p2
      ''192.0.2.25'' ''mx.example.com'' 587))"
    by code_simp
  have g2: "Replies ?p2 = (''220 mx ESMTP'' @ CRLF) #
      [''250-mx'' @ CRLF, ''250-starttls'' @ CRLF, ''250 OK'' @ CRLF, ''454 TLS not available'' @ CRLF]"
    by (simp add: smtp_example_def)
  have e2: "read_ehlo [''250-mx'' @ CRLF, ''250-starttls'' @ CRLF, ''250 OK'' @ CRLF,
        ''454 TLS not available'' @ CRLF] [] =
      Some ([''250-mx'' @ CRLF, ''250-starttls'' @ CRLF, ''250 OK'' @ CRLF],
            [''454 TLS not available'' @ CRLF])"
    by code_simp
  have p2: "\<not> prefix ''220'' (hd [''454 TLS not available'' @ CRLF])" by code_simp
  from starttls_gate [where peer = ?p2 and lib = sample_lib and now = 1700000000
      and ip = "''192.0.2.25''" and hostname = "''mx.example.com''" and port = 587,
      THEN conjunct2, THEN conjunct2, THEN conjunct2, THEN conjunct2, THEN mp, OF w2]
  obtain greeting incoming lines rest where
    o: "Replies ?p2 = greeting # incoming" "read_ehlo incoming [] = Some (lines, rest)"
      "rest = [] \<or> \<not> prefix ''220'' (hd rest) \<longrightarrow>
        fst (scanSMTPStartTLS sample_lib 1700000000 ?p2 ''192.0.2.25'' ''mx.example.com'' 587) =
          Inl StartTLSFailed"
    by blast
  from o(1) g2 have "incoming = [''250-mx'' @ CRLF, ''250-starttls'' @ CRLF, ''250 OK'' @ CRLF,
        ''454 TLS not available'' @ CRLF]" by simp
  with o(2) e2 have "rest = [''454 TLS not available'' @ CRLF]" by simp
  with o(3) p2 have r2: "fst (scanSMTPStartTLS sample_lib 1700000000 ?p2
      ''192.0.2.25'' ''mx.example.com'' 587) = Inl StartTLSFailed" by blast
  have a3: "Accepts ?p3" by (simp add: smtp_example_def)
  have g3: "Replies ?p3 = (''220 mx ESMTP'' @ CRLF) # [''250-mx'' @ CRLF, ''250-STARTTLS'' @ CRLF]"
    by (simp add: smtp_example_def)
  have c3: "\<forall>l \<in> set [''250-mx'' @ CRLF, ''250-STARTTLS'' @ CRLF]. prefix ''250-'' l"
    by code_simp
  have r3: "scanSMTPStartTLS sample_lib 1700000000 ?p3 ''192.0.2.25'' ''mx.example.com'' 587 =
      (Inl EhloReadFailed, [EHLO_command])"
    using starttls_gate [where peer = ?p3 and greeting = "''220 mx ESMTP'' @ CRLF"
        and incoming = "[''250-mx'' @ CRLF, ''250-STARTTLS'' @ CRLF]"
        and lib = sample_lib and now = 1700000000 and ip = "''192.0.2.25''"
        and hostname = "''mx.example.com''" and port = 587,
        THEN conjunct2, THEN conjunct2, THEN conjunct1]
      a3 g3 c3 by blast
  show ?thesis using r1 r2 r3 by (intro conjI)
qed

text \<open>
  The claim as it stands has the attempt fail with UnsupportedError on every trace whose
  collected lines lack \<open>STARTTLS\<close>. On a trace that ends inside the reply to EHLO the
  lines collected so far lack it, the test of the collected lines is not reached, and the
  error is \<open>EHLO read failed\<close>.
\<close>

theorem cut_ehlo_reply_counterexample:
  "scanSMTPStartTLS sample_lib 1700000000
     (smtp_example [''220 mx ESMTP'' @ CRLF, ''250-mx'' @ CRLF, ''250-SIZE 1000'' @ CRLF])
     ''192.0.2.25'' ''mx.example.com'' 587 = (Inl EhloReadFailed, [EHLO_command])
   \<and> \<not> supportsStartTLS sample_lib [''250-mx'' @ CRLF, ''250-SIZE 1000'' @ CRLF]
   \<and> EhloReadFailed \<noteq> StartTLSNotSupported"
  by code_simp



section \<open>Duplicates\<close>

lemma set_first_occurrences: "set (first_occurrences xs) = set xs"
  by (induction xs rule: first_occurrences.induct) auto

lemma distinct_first_occurrences: "distinct (first_occurrences xs)"
  by (induction xs rule: first_occurrences.induct) (auto simp: set_first_occurrences)

lemma length_first_occurrences: "length (first_occurrences xs) = card (set xs)"
  using distinct_card [OF distinct_first_occurrences [of xs]]
  by (simp add: set_first_occurrences)

lemma first_occurrences_distinct: "distinct xs \<Longrightarrow> first_occurrences xs = xs"
  by (induction xs) auto

lemma first_occurrences_seen:
  "e \<in> set acc \<Longrightarrow> first_occurrences (acc @ e # ys) = first_occurrences (acc @ ys)"
proof (induction acc arbitrary: ys rule: first_occurrences.induct)
  case 1
  then show ?case by simp
next
  case (2 x xs)
  show ?case
  proof (cases "e = x")
    case True
    then show ?thesis by simp
  next
    case False
    with "2.prems" have "e \<in> set (removeAll x xs)" by simp
    from "2.IH" [OF this, of "removeAll x ys"] False show ?thesis by simp
  qed
qed

lemma collect_unique_first_occurrences:
  "distinct acc \<Longrightarrow>
   collect_unique lib chain (acc, set acc) =
     (first_occurrences (acc @ map (EncodeToString lib) chain),
      set (acc @ map (EncodeToString lib) chain))"
proof (induction chain arbitrary: acc)
  case Nil
  then show ?case by (simp add: first_occurrences_distinct)
next
  case (Cons cert chain)
  show ?case
  proof (cases "EncodeToString lib cert \<in> set acc")
    case True
    then have "insert (EncodeToString lib cert) (set acc) = set acc" by auto
    with True Cons.IH [OF Cons.prems] show ?thesis
      by (auto simp add: first_occurrences_seen Let_def)
  next
    case False
    with Cons.prems have d: "distinct (acc @ [EncodeToString lib cert])" by simp
    from Cons.IH [OF d] False show ?thesis by (simp add: Let_def)
  qed
qed

lemma first_occurrences_idem_append:
  "first_occurrences (first_occurrences xs @ ys) = first_occurrences (xs @ ys)"
proof (induction xs arbitrary: ys rule: first_occurrences.induct)
  case 1
  then show ?case by simp
next
  case (2 x xs)
  have "removeAll x (first_occurrences (removeAll x xs)) = first_occurrences (removeAll x xs)"
    by (simp add: removeAll_id set_first_occurrences)
  with "2.IH" [of "removeAll x ys"] show ?case by simp
qed

lemma collect_unique_start:
  "fst (collect_unique lib chain ([], {})) = first_occurrences (map (EncodeToString lib) chain)"
  using collect_unique_first_occurrences [of "[]" lib chain] by simp

lemma collect_unique_resume:
  "fst (collect_unique lib chain' (collect_unique lib chain ([], {}))) =
     first_occurrences (map (EncodeToString lib) (chain @ chain'))"
proof -
  let ?xs = "map (EncodeToString lib) chain"
  have "collect_unique lib chain ([], {}) = (first_occurrences ?xs, set (first_occurrences ?xs))"
    using collect_unique_first_occurrences [of "[]" lib chain]
    by (simp add: set_first_occurrences)
  moreover have "collect_unique lib chain' (first_occurrences ?xs, set (first_occurrences ?xs)) =
      (first_occurrences (first_occurrences ?xs @ map (EncodeToString lib) chain'),
       set (first_occurrences ?xs @ map (EncodeToString lib) chain'))"
    by (rule collect_unique_first_occurrences) (rule distinct_first_occurrences)
  ultimately show ?thesis
    by (simp add: first_occurrences_idem_append)
qed

lemma legacy_certs_first_occurrences:
  "legacy_certs lib ecdsa rsa =
     first_occurrences (map (EncodeToString lib)
       ((case ecdsa of Some chain \<Rightarrow> chain | None \<Rightarrow> []) @
        (case rsa of Some chain \<Rightarrow> chain | None \<Rightarrow> [])))"
proof (cases ecdsa)
  case None
  then show ?thesis
    by (cases rsa) (simp_all add: legacy_certs_def collect_unique_start)
next
  case (Some a)
  then show ?thesis
    by (cases rsa) (simp_all add: legacy_certs_def collect_unique_start collect_unique_resume)
qed

lemma scanSMTPStartTLS_chain:
  "fst (scanSMTPStartTLS lib now peer ip hostname port) = Inr r \<Longrightarrow>
   \<exists>chain. Upgrade peer = Some chain \<and> chain \<noteq> [] \<and>
     Certificates r = map (EncodeToString lib) chain"
  by (auto simp add: scanSMTPStartTLS_def split: if_splits list.splits option.splits prod.splits)

text \<open>
  Claim C4, amended. The legacy scan, which gathers the certificates of the ECDSA and of
  the RSA connection of a port in one list, keeps each encoded certificate once, at its
  first occurrence: the list has no duplicates, and of \<open>N\<close> certificates with \<open>K\<close>
  byte-identical repeats it has \<open>N - K\<close> entries, that is, as many as there are different
  certificates (the encoding being injective); the result of the port carries this list.
  The paths that read the chain of a single handshake do not remove duplicates: the
  result of the prober of the protocol-aware scan, \<open>tlsHandshakeAndCollectWithTimeout\<close>,
  and the result of the STARTTLS upgrader list the encoded certificates of the peer's
  chain as they came, one entry for each.
\<close>

theorem duplicates_by_path:
  "legacy_certs lib ecdsa rsa =
     first_occurrences (map (EncodeToString lib)
       ((case ecdsa of Some chain \<Rightarrow> chain | None \<Rightarrow> []) @
        (case rsa of Some chain \<Rightarrow> chain | None \<Rightarrow> [])))
   \<and> distinct (legacy_certs lib ecdsa rsa)
   \<and> length (legacy_certs lib ecdsa rsa) =
       card (EncodeToString lib `
         (set (case ecdsa of Some chain \<Rightarrow> chain | None \<Rightarrow> []) \<union>
          set (case rsa of Some chain \<Rightarrow> chain | None \<Rightarrow> [])))
   \<and> (inj (EncodeToString lib) \<longrightarrow>
       length (legacy_certs lib ecdsa rsa) =
         card (set (case ecdsa of Some chain \<Rightarrow> chain | None \<Rightarrow> []) \<union>
               set (case rsa of Some chain \<Rightarrow> chain | None \<Rightarrow> [])))
   \<and> (\<forall>r \<in> set_option (legacy_result lib now ecdsa rsa ip hostname port).
         Certificates r = legacy_certs lib ecdsa rsa)
   \<and> (Peer net ip port family = PeerCertificates chain \<and> chain \<noteq> [] \<longrightarrow>
       tlsHandshakeAndCollectWithTimeout lib net ip hostname port family =
         Inr \<lparr>IP = ip, Port = port, Hostname = hostname, HandshakeType = family,
              Certificates = map (EncodeToString lib) chain, Timestamp = Now net\<rparr>)
   \<and> (fst (scanSMTPStartTLS lib now peer ip hostname port) = Inr r \<longrightarrow>
       (\<exists>chain. Upgrade peer = Some chain \<and> chain \<noteq> [] \<and>
          Certificates r = map (EncodeToString lib) chain))"
proof -
  let ?cs = "(case ecdsa of Some chain \<Rightarrow> chain | None \<Rightarrow> []) @
             (case rsa of Some chain \<Rightarrow> chain | None \<Rightarrow> [])"
  have a: "legacy_certs lib ecdsa rsa = first_occurrences (map (EncodeToString lib) ?cs)"
    by (rule legacy_certs_first_occurrences)
  have b: "distinct (legacy_certs lib ecdsa rsa)"
    unfolding a by (rule distinct_first_occurrences)
  have c: "length (legacy_certs lib ecdsa rsa) =
       card (EncodeToString lib `
         (set (case ecdsa of Some chain \<Rightarrow> chain | None \<Rightarrow> []) \<union>
          set (case rsa of Some chain \<Rightarrow> chain | None \<Rightarrow> [])))"
    unfolding a by (simp add: length_first_occurrences image_Un)
  have d: "length (legacy_certs lib ecdsa rsa) =
         card (set (case ecdsa of Some chain \<Rightarrow> chain | None \<Rightarrow> []) \<union>
               set (case rsa of Some chain \<Rightarrow> chain | None \<Rightarrow> []))"
    if "inj (EncodeToString lib)"
    unfolding c using that by (metis card_image inj_on_subset subset_UNIV)
  have e: "\<forall>r \<in> set_option (legacy_result lib now ecdsa rsa ip hostname port).
         Certificates r = legacy_certs lib ecdsa rsa"
    by (auto simp add: legacy_result_def Let_def split: if_splits)
  have f: "tlsHandshakeAndCollectWithTimeout lib net ip hostname port family =
         Inr \<lparr>IP = ip, Port = port, Hostname = hostname, HandshakeType = family,
              Certificates = map (EncodeToString lib) chain, Timestamp = Now net\<rparr>"
    if "Peer net ip port family = PeerCertificates chain \<and> chain \<noteq> []"
    using that by (simp add: tlsHandshakeAndCollectWithTimeout_def)
  have g: "\<exists>chain. Upgrade peer = Some chain \<and> chain \<noteq> [] \<and>
          Certificates r = map (EncodeToString lib) chain"
    if "fst (scanSMTPStartTLS lib now peer ip hostname port) = Inr r"
    using that by (rule scanSMTPStartTLS_chain)
  show ?thesis using a b c d e f g by blast
qed

lemma inj_base64_encode: "inj (EncodeToString sample_lib)"
proof (rule injI)
  fix x y assume "EncodeToString sample_lib x = EncodeToString sample_lib y"
  then have "base64_DecodeString (base64_encode x) = base64_DecodeString (base64_encode y)"
    by (simp add: sample_lib_def)
  then show "x = y" by (simp add: base64_roundtrip)
qed

theorem duplicates_by_path_witness:
  "legacy_certs sample_lib (Some [''a|1'', ''b|2'', ''a|1'']) (Some [''b|2'', ''c|3'']) =
     [base64_encode ''a|1'', base64_encode ''b|2'', base64_encode ''c|3'']
   \<and> length (legacy_certs sample_lib (Some [''a|1'', ''b|2'', ''a|1'']) (Some [''b|2'', ''c|3''])) = 3
   \<and> tlsHandshakeAndCollectWithTimeout sample_lib
       (example_net DialFails (PeerCertificates [''a|1'', ''a|1'']))
       ''93.184.216.34'' ''example.com'' 443 ''rsa'' =
     Inr \<lparr>IP = ''93.184.216.34'', Port = 443, Hostname = ''example.com'', HandshakeType = ''rsa'',
          Certificates = [base64_encode ''a|1'', base64_encode ''a|1''], Timestamp = 1700000000\<rparr>
   \<and> (\<exists>chain. Upgrade (smtp_example [''220 mx ESMTP'' @ CRLF, ''250 STARTTLS'' @ CRLF,
                ''220 Ready'' @ CRLF]) = Some chain \<and> chain \<noteq> [] \<and>
          [base64_encode ''CN=Good CA|mail''] = map (EncodeToString sample_lib) chain)"
proof -
  let ?net = "example_net DialFails (PeerCertificates [''a|1'', ''a|1''])"
  let ?peer = "smtp_example [''220 mx ESMTP'' @ CRLF, ''250 STARTTLS'' @ CRLF, ''220 Ready'' @ CRLF]"
  let ?r = "\<lparr>IP = ''192.0.2.25'', Port = 587, Hostname = ''mx.example.com'', HandshakeType = [],
      Certificates = [base64_encode ''CN=Good CA|mail''], Timestamp = 1700000000\<rparr>"
  note t = duplicates_by_path [of sample_lib "Some [''a|1'', ''b|2'', ''a|1'']" "Some [''b|2'', ''c|3'']"
      1700000000 "''93.184.216.34''" "''example.com''" 443 ?net "''rsa''" "[''a|1'', ''a|1'']"]
  have f: "first_occurrences (map (EncodeToString sample_lib)
       ((case Some [''a|1'', ''b|2'', ''a|1''] of Some chain \<Rightarrow> chain | None \<Rightarrow> []) @
        (case Some [''b|2'', ''c|3''] of Some chain \<Rightarrow> chain | None \<Rightarrow> []))) =
     [base64_encode ''a|1'', base64_encode ''b|2'', base64_encode ''c|3'']"
    by code_simp
  have c1: "legacy_certs sample_lib (Some [''a|1'', ''b|2'', ''a|1'']) (Some [''b|2'', ''c|3'']) =
     [base64_encode ''a|1'', base64_encode ''b|2'', base64_encode ''c|3'']"
    using t [THEN conjunct1] f by (rule trans)
  have k: "card (set (case Some [''a|1'', ''b|2'', ''a|1''] of Some chain \<Rightarrow> chain | None \<Rightarrow> []) \<union>
               set (case Some [''b|2'', ''c|3''] of Some chain \<Rightarrow> chain | None \<Rightarrow> [])) = 3"
    by code_simp
  have c2: "length (legacy_certs sample_lib (Some [''a|1'', ''b|2'', ''a|1''])
      (Some [''b|2'', ''c|3''])) = 3"
    using t [THEN conjunct2, THEN conjunct2, THEN conjunct2, THEN conjunct1, THEN mp,
        OF inj_base64_encode] k by (rule trans)
  have p: "Peer ?net ''93.184.216.34'' 443 ''rsa'' = PeerCertificates [''a|1'', ''a|1''] \<and>
      [''a|1'', ''a|1''] \<noteq> []"
    by (simp add: example_net_def)
  have e: "\<lparr>IP = ''93.184.216.34'', Port = 443, Hostname = ''example.com'', HandshakeType = ''rsa'',
          Certificates = map (EncodeToString sample_lib) [''a|1'', ''a|1''],
          Timestamp = Now ?net\<rparr> =
       \<lparr>IP = ''93.184.216.34'', Port = 443, Hostname = ''example.com'', HandshakeType = ''rsa'',
          Certificates = [base64_encode ''a|1'', base64_encode ''a|1''], Timestamp = 1700000000\<rparr>"
    by (simp add: sample_lib_def example_net_def)
  have c3: "tlsHandshakeAndCollectWithTimeout sample_lib ?net
       ''93.184.216.34'' ''example.com'' 443 ''rsa'' =
     Inr \<lparr>IP = ''93.184.216.34'', Port = 443, Hostname = ''example.com'', HandshakeType = ''rsa'',
          Certificates = [base64_encode ''a|1'', base64_encode ''a|1''], Timestamp = 1700000000\<rparr>"
    using t [THEN conjunct2, THEN conjunct2, THEN conjunct2, THEN conjunct2, THEN conjunct2,
        THEN conjunct1, THEN mp, OF p] e by simp
  have s: "fst (scanSMTPStartTLS sample_lib 1700000000 ?peer ''192.0.2.25'' ''mx.example.com'' 587)
      = Inr ?r"
    by code_simp
  have cr: "Certificates ?r = [base64_encode ''CN=Good CA|mail'']" by simp
  have c4: "\<exists>chain. Upgrade ?peer = Some chain \<and> chain \<noteq> [] \<and>
          [base64_encode ''CN=Good CA|mail''] = map (EncodeToString sample_lib) chain"
    using duplicates_by_path [of sample_lib None None 1700000000 "''192.0.2.25''"
        "''mx.example.com''" 587 ?net "''rsa''" "[]" ?peer ?r,
        THEN conjunct2, THEN conjunct2, THEN conjunct2, THEN conjunct2, THEN conjunct2,
        THEN conjunct2, THEN mp, OF s]
    unfolding cr .
  show ?thesis using c1 c2 c3 c4 by (intro conjI)
qed

text \<open>
  Claim C4 has no duplicate in any result of a probe. A peer whose chain holds the same
  certificate twice gives a result of the prober with two equal entries, and the web
  handler posts it so.
\<close>

theorem prober_keeps_duplicates_counterexample:
  "tlsHandshakeAndCollectWithTimeout sample_lib
     (example_net (PeerCertificates [''CN=Good CA|www'', ''CN=Good CA|www'']) DialFails)
     ''93.184.216.34'' ''example.com'' 443 ''ecdsa'' =
     Inr \<lparr>IP = ''93.184.216.34'', Port = 443, Hostname = ''example.com'', HandshakeType = ''ecdsa'',
          Certificates = [base64_encode ''CN=Good CA|www'', base64_encode ''CN=Good CA|www''],
          Timestamp = 1700000000\<rparr>
   \<and> posted (fst (defaultTLSHandler sample_lib (example_config [] 4 [])
       (example_net (PeerCertificates [''CN=Good CA|www'', ''CN=Good CA|www'']) DialFails)
       (sink_answering 200) ''93.184.216.34'' ''example.com'' 443)) =
     [[\<lparr>IP = ''93.184.216.34'', Port = 443, Hostname = ''example.com'', HandshakeType = ''ecdsa'',
        Certificates = [base64_encode ''CN=Good CA|www'', base64_encode ''CN=Good CA|www''],
        Timestamp = 1700000000\<rparr>]]
   \<and> \<not> distinct [base64_encode ''CN=Good CA|www'', base64_encode ''CN=Good CA|www'']"
  by code_simp

section \<open>The admission gate\<close>

text \<open>The scheduler takes the configured limit as the capacity of the gate as it is. A
  negative limit makes \<open>make\<close> panic. With a limit of zero the channel has no buffer:
  the first turn of the loop cannot be taken while no task has been started, and no task
  is started before it. A positive limit lets the first turn through.\<close>

lemma scheduler_start_raw_limit:
  "(ConcurrencyLimit cfg < 0 \<longrightarrow> scheduler_start cfg ports = Inl MakechanSizeOutOfRange)
   \<and> (ConcurrencyLimit cfg = 0 \<longrightarrow>
        scheduler_start cfg (port # ports) = Inr (0, sched_init (port # ports)) \<and>
        running (sched_init (port # ports)) = [] \<and>
        launch 0 (sched_init (port # ports)) = [])
   \<and> (0 < ConcurrencyLimit cfg \<longrightarrow>
        scheduler_start cfg (port # ports) =
          Inr (nat (ConcurrencyLimit cfg), sched_init (port # ports)) \<and>
        launch (nat (ConcurrencyLimit cfg)) (sched_init (port # ports)) =
          [\<lparr>pending = ports, running = [port]\<rparr>])"
  by (simp add: scheduler_start_def make_chan_def sched_init_def launch_def)


end
